theory Spec2Isabelle
  imports Main "HOL-Library.AList"
begin

section \<open>Strings of the runtime\<close>

text \<open>
  A string of the program is a sequence of UTF-16 code units. A code unit is modelled by
  its numeric value (what \<^verbatim>\<open>charCodeAt\<close> returns), so that the characters above
  0xFF that the encoding check is about are ordinary values. Literals of the source are
  written with \<open>str\<close>.
\<close>

type_synonym jstring = "nat list"

definition str :: "string \<Rightarrow> jstring" where
  "str s = map of_char s"

text \<open>
  The white space removed by \<^verbatim>\<open>String.prototype.trim\<close> and matched by the regular
  expression class \<^verbatim>\<open>\s\<close>: the WhiteSpace and LineTerminator code points of ECMAScript.
\<close>

definition is_space :: "nat \<Rightarrow> bool" where
  "is_space c \<longleftrightarrow>
     (9 \<le> c \<and> c \<le> 13) \<or> c = 32 \<or> c = 160 \<or> c = 5760 \<or> (8192 \<le> c \<and> c \<le> 8202) \<or>
     c = 8232 \<or> c = 8233 \<or> c = 8239 \<or> c = 8287 \<or> c = 12288 \<or> c = 65279"

definition trim :: "jstring \<Rightarrow> jstring" where
  "trim s = rev (dropWhile is_space (rev (dropWhile is_space s)))"

text \<open>\<^verbatim>\<open>Array.prototype.join\<close> on an array of strings.\<close>

fun join :: "jstring \<Rightarrow> jstring list \<Rightarrow> jstring" where
  "join sep [] = []"
| "join sep [x] = x"
| "join sep (x # y # ys) = x @ sep @ join sep (y # ys)"

text \<open>The decimal text of a number, as a template literal prints it.\<close>

fun show_nat :: "nat \<Rightarrow> jstring" where
  "show_nat n = (if n < 10 then [48 + n] else show_nat (n div 10) @ [48 + n mod 10])"

declare show_nat.simps [simp del]

text \<open>
  \<^verbatim>\<open>n.toString(16).toUpperCase()\<close>: the hexadecimal text of a number with the digits
  A to F in upper case, and \<^verbatim>\<open>padStart\<close>.
\<close>

definition hex_digit :: "nat \<Rightarrow> nat" where
  "hex_digit d = (if d < 10 then 48 + d else 55 + d)"

fun to_hex :: "nat \<Rightarrow> jstring" where
  "to_hex n = (if n < 16 then [hex_digit n] else to_hex (n div 16) @ [hex_digit (n mod 16)])"

declare to_hex.simps [simp del]

definition padStart :: "nat \<Rightarrow> nat \<Rightarrow> jstring \<Rightarrow> jstring" where
  "padStart n c s = replicate (n - length s) c @ s"

text \<open>\<^verbatim>\<open>s.length > 50 ? s.substring(0, 50) + '...' : s\<close>, the preview of a cell in a reason.\<close>

definition preview :: "jstring \<Rightarrow> jstring" where
  "preview s = (if length s > 50 then take 50 s @ str ''...'' else s)"

text \<open>Reading an array at an index: \<open>None\<close> stands for \<^verbatim>\<open>undefined\<close> out of range.\<close>

definition nth_opt :: "'a list \<Rightarrow> nat \<Rightarrow> 'a option" where
  "nth_opt xs i = (if i < length xs then Some (xs ! i) else None)"

section \<open>Data model (types.ts)\<close>

datatype ColumnType = TString | TNumber | TBoolean

record ColumnConstraints =
  ctype :: "ColumnType option"
  allowNull :: "bool option"

record HeaderConfig =
  expectedHeaders :: "jstring list"
  strictOrder :: "bool option"
  caseInsensitive :: "bool option"
  columnSchemas :: "(jstring \<times> ColumnConstraints) list option"

datatype EncodingType = UTF8 | LATIN1 | ASCII | UTF16 | WINDOWS1252

record EncodingConfig =
  allowedEncodings :: "EncodingType list option"

record ValidationConfig =
  headers :: HeaderConfig
  validateSqlInjection :: "bool option"
  encoding :: "EncodingConfig option"

record ValidationFailure =
  column :: jstring
  line :: nat
  reason :: jstring

datatype ValidationResult =
  Success jstring
| Failed jstring "ValidationFailure list"

text \<open>The operator \<^verbatim>\<open>??\<close> on an optional field.\<close>

definition orDefault :: "'a option \<Rightarrow> 'a \<Rightarrow> 'a" where
  "orDefault x d = (case x of None \<Rightarrow> d | Some v \<Rightarrow> v)"

section \<open>Header validation (validator.ts, validateHeaders)\<close>

text \<open>
  \<^verbatim>\<open>String.prototype.toLowerCase\<close> follows the Unicode case tables of the runtime, which
  are not part of the repository: the mapping is the parameter \<open>lc\<close> of every function that
  reaches it.
\<close>

definition normalize_hdr :: "(jstring \<Rightarrow> jstring) \<Rightarrow> bool \<Rightarrow> jstring \<Rightarrow> jstring" where
  "normalize_hdr lc ci s = (if ci then trim (lc s) else trim s)"

definition missingHeaders :: "jstring list \<Rightarrow> jstring list \<Rightarrow> jstring list \<Rightarrow> jstring list" where
  "missingHeaders expected normalizedExpected normalizedHeaders =
     concat (map (\<lambda>index.
                if normalizedExpected ! index \<notin> set normalizedHeaders
                then [expected ! index] else [])
             [0..<length normalizedExpected])"

definition validateHeaders ::
  "(jstring \<Rightarrow> jstring) \<Rightarrow> jstring list \<Rightarrow> HeaderConfig \<Rightarrow> ValidationFailure option" where
  "validateHeaders lc hs config =
     (let expected = expectedHeaders config;
          strict = orDefault (strictOrder config) True;
          ci = orDefault (caseInsensitive config) False;
          normalizedHeaders = map (normalize_hdr lc ci) hs;
          normalizedExpected = map (normalize_hdr lc ci) expected;
          missing = missingHeaders expected normalizedExpected normalizedHeaders
      in if length missing > 0 then
           Some \<lparr>column = str ''headers'', line = 1,
                 reason = str ''Missing required headers: '' @ join (str '', '') missing\<rparr>
         else if strict then
           (if length normalizedHeaders \<noteq> length normalizedExpected then
              Some \<lparr>column = str ''headers'', line = 1,
                    reason = str ''Expected '' @ show_nat (length normalizedExpected) @
                             str '' headers, found '' @ show_nat (length normalizedHeaders)\<rparr>
            else
              (case find (\<lambda>i. normalizedHeaders ! i \<noteq> normalizedExpected ! i)
                         [0..<length normalizedHeaders] of
                 Some i \<Rightarrow>
                   Some \<lparr>column = (if expected ! i \<noteq> [] then expected ! i
                                   else str ''column '' @ show_nat (i + 1)),
                         line = 1,
                         reason = str ''Expected header '' @ [34] @ expected ! i @ [34] @
                                  str '' at position '' @ show_nat (i + 1) @
                                  str '', found '' @ [34] @ hs ! i @ [34]\<rparr>
               | None \<Rightarrow> None))
         else None)"

section \<open>Regular expressions\<close>

text \<open>
  The regular expressions of the source use literals, the classes \<^verbatim>\<open>\s\<close>, \<^verbatim>\<open>\d\<close> and
  \<^verbatim>\<open>.\<close>, concatenation, alternation, \<^verbatim>\<open>*\<close>, \<^verbatim>\<open>+\<close>, \<^verbatim>\<open>?\<close> and the flag \<^verbatim>\<open>i\<close>; none has
  a back-reference, a look-around or the flags \<^verbatim>\<open>g\<close> and \<^verbatim>\<open>y\<close>, so \<^verbatim>\<open>test\<close> keeps no
  state and answers whether some substring belongs to the regular language. The matcher
  works by derivatives.
\<close>

datatype rx =
  Nul
| Eps
| Atom "nat \<Rightarrow> bool"
| Seq rx rx
| Alt rx rx
| Star rx

definition Plus :: "rx \<Rightarrow> rx" where
  "Plus r = Seq r (Star r)"

definition Opt :: "rx \<Rightarrow> rx" where
  "Opt r = Alt r Eps"

fun nullable :: "rx \<Rightarrow> bool" where
  "nullable Nul = False"
| "nullable Eps = True"
| "nullable (Atom p) = False"
| "nullable (Seq r s) = (nullable r \<and> nullable s)"
| "nullable (Alt r s) = (nullable r \<or> nullable s)"
| "nullable (Star r) = True"

fun deriv :: "nat \<Rightarrow> rx \<Rightarrow> rx" where
  "deriv c Nul = Nul"
| "deriv c Eps = Nul"
| "deriv c (Atom p) = (if p c then Eps else Nul)"
| "deriv c (Seq r s) =
     (if nullable r then Alt (Seq (deriv c r) s) (deriv c s) else Seq (deriv c r) s)"
| "deriv c (Alt r s) = Alt (deriv c r) (deriv c s)"
| "deriv c (Star r) = Seq (deriv c r) (Star r)"

text \<open>A regular expression that no string matches any more.\<close>

fun dead :: "rx \<Rightarrow> bool" where
  "dead Nul = True"
| "dead Eps = False"
| "dead (Atom p) = False"
| "dead (Seq r s) = (dead r \<or> dead s)"
| "dead (Alt r s) = (dead r \<and> dead s)"
| "dead (Star r) = False"

text \<open>The whole string matches: a pattern between \<^verbatim>\<open>^\<close> and \<^verbatim>\<open>$\<close>.\<close>

fun matches :: "rx \<Rightarrow> jstring \<Rightarrow> bool" where
  "matches r [] = nullable r"
| "matches r (c # cs) = (if dead r then False else matches (deriv c r) cs)"

text \<open>Some prefix of the string matches.\<close>

fun match_here :: "rx \<Rightarrow> jstring \<Rightarrow> bool" where
  "match_here r [] = nullable r"
| "match_here r (c # cs) =
     (if nullable r then True else if dead r then False else match_here (deriv c r) cs)"

text \<open>\<^verbatim>\<open>RegExp.prototype.test\<close> of a pattern without anchors: some substring matches.\<close>

fun test :: "rx \<Rightarrow> jstring \<Rightarrow> bool" where
  "test r [] = nullable r"
| "test r (c # cs) = (if match_here r (c # cs) then True else test r cs)"

text \<open>
  Building blocks. With the flag \<^verbatim>\<open>i\<close> two code units are compared after the
  canonicalisation of ECMAScript, which maps a code unit to its upper case but never maps
  one from 128 upwards to one below 128: against a pattern character below 128 it is the
  comparison of the ASCII upper cases.
\<close>

definition ch :: "nat \<Rightarrow> rx" where
  "ch c = Atom (\<lambda>x. x = c)"

definition canon :: "nat \<Rightarrow> nat" where
  "canon c = (if 97 \<le> c \<and> c \<le> 122 then c - 32 else c)"

definition chi :: "nat \<Rightarrow> rx" where
  "chi c = Atom (\<lambda>x. canon x = canon c)"

definition lit :: "string \<Rightarrow> rx" where
  "lit s = foldr (\<lambda>c r. Seq (ch (of_char c)) r) s Eps"

definition liti :: "string \<Rightarrow> rx" where
  "liti s = foldr (\<lambda>c r. Seq (chi (of_char c)) r) s Eps"

definition is_digit :: "nat \<Rightarrow> bool" where
  "is_digit c \<longleftrightarrow> 48 \<le> c \<and> c \<le> 57"

definition space :: rx where
  "space = Atom is_space"

definition digit :: rx where
  "digit = Atom is_digit"

text \<open>The class \<^verbatim>\<open>.\<close>: every code unit but the line terminators.\<close>

definition dot :: rx where
  "dot = Atom (\<lambda>x. x \<noteq> 10 \<and> x \<noteq> 13 \<and> x \<noteq> 8232 \<and> x \<noteq> 8233)"

fun seqs :: "rx list \<Rightarrow> rx" where
  "seqs [] = Eps"
| "seqs [r] = r"
| "seqs (r # rs) = Seq r (seqs rs)"

fun alts :: "rx list \<Rightarrow> rx" where
  "alts [] = Nul"
| "alts [r] = r"
| "alts (r # rs) = Alt r (alts rs)"

section \<open>The pattern catalog (validator.ts)\<close>

definition SQL_DANGEROUS_PATTERNS :: "(rx \<times> jstring) list" where
  "SQL_DANGEROUS_PATTERNS =
   [(lit '';'', str ''Statement terminator''),
    (lit ''--'', str ''SQL comment''),
    (lit ''/*'', str ''Multi-line comment start''),
    (lit ''*/'', str ''Multi-line comment end''),
    (seqs [ch 39, ch 59],
       str ''Quote followed by statement terminator (potential injection)''),
    (seqs [chi 39, chi 59, Star space,
           alts [liti ''drop'', liti ''delete'', liti ''update'', liti ''insert'',
                 liti ''select'']],
       str ''SQL injection pattern''),
    (seqs [chi 39, chi 59, Star space, liti ''exec''], str ''SQL injection with exec''),
    (seqs [chi 39, chi 59, Star space, liti ''union''], str ''SQL injection with union''),
    (ch 0, str ''Null byte''),
    (ch 26, str ''Ctrl+Z character''),
    (ch 8, str ''Backspace character''),
    (liti ''xp_'', str ''Extended stored procedure''),
    (liti ''sp_'', str ''System stored procedure''),
    (seqs [liti ''exec'', Star space, chi 40], str ''EXEC( statement''),
    (seqs [liti ''execute'', Star space, chi 40], str ''EXECUTE( statement''),
    (seqs [liti ''select'', Plus space, Star dot, Plus space, liti ''from''],
       str ''SELECT ... FROM statement''),
    (seqs [liti ''insert'', Plus space, liti ''into''], str ''INSERT INTO statement''),
    (seqs [liti ''update'', Plus space, Star dot, Plus space, liti ''set''],
       str ''UPDATE ... SET statement''),
    (seqs [liti ''delete'', Plus space, liti ''from''], str ''DELETE FROM statement''),
    (seqs [liti ''drop'', Plus space,
           alts [liti ''table'', liti ''database'', liti ''schema'']],
       str ''DROP TABLE/DATABASE statement''),
    (seqs [liti ''union'', Plus space, liti ''select''], str ''UNION SELECT statement''),
    (seqs [liti ''or'', Plus space, chi 49, Star space, chi 61, Star space, chi 49],
       str ''OR 1=1 injection pattern''),
    (seqs [chi 39, Star space, liti ''or'', Star space, chi 39],
       str ''Quote OR quote injection pattern'')]"

section \<open>Content patterns (validator.ts, validateDataRows)\<close>

text \<open>
  A table is \<^verbatim>\<open>string[][]\<close>: every row and every cell is present, so the guards of the
  source against \<^verbatim>\<open>null\<close> and \<^verbatim>\<open>undefined\<close> rows and cells (\<^verbatim>\<open>!row\<close>,
  \<^verbatim>\<open>cell == null\<close>, \<^verbatim>\<open>?? ''\<close>) never fire and \<^verbatim>\<open>String(cell)\<close> is the cell. A loop
  that pushes onto \<^verbatim>\<open>failures\<close> is the concatenation, in index order, of what each round
  pushes.
\<close>

text \<open>\<^verbatim>\<open>headers[colIndex] || `Column ${colIndex + 1}`\<close>\<close>

definition columnLabel :: "jstring list \<Rightarrow> nat \<Rightarrow> jstring" where
  "columnLabel hs colIndex =
     (case nth_opt hs colIndex of
        Some h \<Rightarrow> if h \<noteq> [] then h else str ''Column '' @ show_nat (colIndex + 1)
      | None \<Rightarrow> str ''Column '' @ show_nat (colIndex + 1))"

text \<open>The guard that skips a row: no cell, or every cell the empty string.\<close>

definition emptyRow :: "jstring list \<Rightarrow> bool" where
  "emptyRow row \<longleftrightarrow> length row = 0 \<or> list_all (\<lambda>cell. cell = []) row"

text \<open>What the loop over the catalog pushes for one cell: the first entry that matches.\<close>

definition sqlCell :: "jstring list \<Rightarrow> nat \<Rightarrow> nat \<Rightarrow> jstring \<Rightarrow> ValidationFailure list" where
  "sqlCell hs rowIndex colIndex cell =
     (let cellValue = trim cell
      in if cellValue = [] then []
         else (case find (\<lambda>(pattern, description). test pattern cellValue)
                         SQL_DANGEROUS_PATTERNS of
                 None \<Rightarrow> []
               | Some (pattern, description) \<Rightarrow>
                   [\<lparr>column = columnLabel hs colIndex,
                     line = rowIndex + 1,
                     reason = str ''Contains potentially dangerous SQL pattern ('' @
                              description @ str ''): '' @ [34] @ take 50 cellValue @
                              (if length cellValue > 50 then str ''...'' else []) @ [34]\<rparr>]))"

definition validateDataRows ::
  "jstring list list \<Rightarrow> jstring list \<Rightarrow> bool \<Rightarrow> ValidationFailure list" where
  "validateDataRows data hs validateSql =
     (if \<not> validateSql then []
      else concat (map (\<lambda>rowIndex.
             let row = data ! rowIndex
             in if emptyRow row then []
                else concat (map (\<lambda>colIndex. sqlCell hs rowIndex colIndex (row ! colIndex))
                                 [0..<length row]))
           [1..<length data]))"

section \<open>Character encoding (validator.ts, validateEncoding)\<close>

fun ENCODING_RANGES :: "EncodingType \<Rightarrow> nat \<times> nat" where
  "ENCODING_RANGES ASCII = (0x00, 0x7F)"
| "ENCODING_RANGES LATIN1 = (0x00, 0xFF)"
| "ENCODING_RANGES UTF8 = (0x00, 0x7F)"
| "ENCODING_RANGES UTF16 = (0x00, 0x7F)"
| "ENCODING_RANGES WINDOWS1252 = (0x00, 0xFF)"

definition isValidForEncoding :: "nat \<Rightarrow> EncodingType \<Rightarrow> bool" where
  "isValidForEncoding charCode enc =
     (case ENCODING_RANGES enc of (mn, mx) \<Rightarrow> charCode \<ge> mn \<and> charCode \<le> mx)"

text \<open>The name of an encoding, as \<^verbatim>\<open>join\<close> prints it.\<close>

fun encodingName :: "EncodingType \<Rightarrow> jstring" where
  "encodingName UTF8 = str ''UTF8''"
| "encodingName LATIN1 = str ''LATIN1''"
| "encodingName ASCII = str ''ASCII''"
| "encodingName UTF16 = str ''UTF16''"
| "encodingName WINDOWS1252 = str ''WINDOWS1252''"

definition isValid :: "EncodingType list \<Rightarrow> nat \<Rightarrow> bool" where
  "isValid allowed charCode = list_ex (\<lambda>enc. isValidForEncoding charCode enc) allowed"

text \<open>What the loop over the characters pushes for one cell: the first invalid character.\<close>

definition encodingCell ::
  "jstring list \<Rightarrow> EncodingType list \<Rightarrow> nat \<Rightarrow> nat \<Rightarrow> jstring \<Rightarrow> ValidationFailure list" where
  "encodingCell hs allowed rowIndex colIndex cellValue =
     (if cellValue = [] then []
      else (case find (\<lambda>charIndex. \<not> isValid allowed (cellValue ! charIndex))
                      [0..<length cellValue] of
              None \<Rightarrow> []
            | Some charIndex \<Rightarrow>
                (let charCode = cellValue ! charIndex;
                     charHex = str ''0x'' @ padStart 4 48 (to_hex charCode)
                 in [\<lparr>column = columnLabel hs colIndex,
                       line = rowIndex + 1,
                       reason = str ''Contains character '' @ [34] @ [charCode] @ [34] @
                                str '' ('' @ charHex @
                                str '') not allowed in specified encodings: '' @
                                join (str '', '') (map encodingName allowed)\<rparr>])))"

definition validateEncoding ::
  "jstring list list \<Rightarrow> jstring list \<Rightarrow> EncodingType list \<Rightarrow> ValidationFailure list" where
  "validateEncoding data hs allowed =
     (if length allowed = 0 then []
      else concat (map (\<lambda>rowIndex.
             let row = data ! rowIndex
             in if emptyRow row then []
                else concat (map (\<lambda>colIndex.
                               encodingCell hs allowed rowIndex colIndex (row ! colIndex))
                             [0..<length row]))
           [1..<length data]))"

section \<open>Column schemas (validator.ts, validateColumnSchemas)\<close>

definition BOOLEAN_VALUES :: "jstring list" where
  "BOOLEAN_VALUES = [str ''t'', str ''f'', str ''true'', str ''false'']"

text \<open>\<^verbatim>\<open>/^-?(\d+(\.\d*)?|\d*\.\d+)$/\<close>; the anchors are the use of \<open>matches\<close>.\<close>

definition NUMBER_PATTERN :: rx where
  "NUMBER_PATTERN =
     Seq (Opt (ch 45))
         (Alt (Seq (Plus digit) (Opt (Seq (ch 46) (Star digit))))
              (Seq (Star digit) (Seq (ch 46) (Plus digit))))"

definition stripSurroundingQuotes :: "jstring \<Rightarrow> jstring" where
  "stripSurroundingQuotes v =
     (let trimmed = trim v
      in if length trimmed \<ge> 2 then
           (if (hd trimmed = 34 \<and> last trimmed = 34) \<or> (hd trimmed = 39 \<and> last trimmed = 39)
            then butlast (tl trimmed)
            else trimmed)
         else trimmed)"

text \<open>
  The object \<^verbatim>\<open>filtered\<close> starts as \<^verbatim>\<open>{}\<close>. It is modelled by its own properties, in
  the order of \<^verbatim>\<open>Object.keys\<close>, and by the prototype that an assignment to the key
  \<^verbatim>\<open>__proto__\<close> gives it: such an assignment calls the setter inherited from
  \<^verbatim>\<open>Object.prototype\<close>, which replaces the prototype of the object and adds no own
  property. An assignment to any other key updates the own property in place or appends
  it. The object \<^verbatim>\<open>columnSchemas\<close> of the policy is the list of its own properties.
\<close>

record FilteredSchemas =
  ownProps :: "(jstring \<times> ColumnConstraints) list"
  protoObj :: "ColumnConstraints option"

definition emptyObject :: FilteredSchemas where
  "emptyObject = \<lparr>ownProps = [], protoObj = None\<rparr>"

definition assignProperty ::
  "jstring \<Rightarrow> ColumnConstraints \<Rightarrow> FilteredSchemas \<Rightarrow> FilteredSchemas" where
  "assignProperty key v obj =
     (if key = str ''__proto__'' then obj\<lparr>protoObj := Some v\<rparr>
      else obj\<lparr>ownProps := AList.update key v (ownProps obj)\<rparr>)"

text \<open>
  Reading \<^verbatim>\<open>columnSchemas[expectedKey]\<close> on that object, as far as the caller looks at
  the value: \<open>None\<close> when the value is falsy, and otherwise the constraints that
  \<^verbatim>\<open>.type\<close> and \<^verbatim>\<open>.allowNull\<close> read from it. An own property wins. Otherwise the
  value is inherited: from the prototype set by an assignment (its \<^verbatim>\<open>type\<close>, a string,
  or its \<^verbatim>\<open>allowNull\<close>, a boolean), then from \<^verbatim>\<open>Object.prototype\<close>, whose getter
  \<^verbatim>\<open>__proto__\<close> returns the prototype of the object and whose other properties are
  functions. A string, a boolean, a function and \<^verbatim>\<open>Object.prototype\<close> itself have
  neither \<^verbatim>\<open>type\<close> nor \<^verbatim>\<open>allowNull\<close>.
\<close>

definition noConstraints :: ColumnConstraints where
  "noConstraints = \<lparr>ctype = None, allowNull = None\<rparr>"

definition OBJECT_PROTOTYPE_KEYS :: "jstring list" where
  "OBJECT_PROTOTYPE_KEYS =
     [str ''constructor'', str ''hasOwnProperty'', str ''isPrototypeOf'',
      str ''propertyIsEnumerable'', str ''toLocaleString'', str ''toString'',
      str ''valueOf'', str ''__proto__'', str ''__defineGetter__'',
      str ''__defineSetter__'', str ''__lookupGetter__'', str ''__lookupSetter__'']"

definition readProperty :: "FilteredSchemas \<Rightarrow> jstring \<Rightarrow> ColumnConstraints option" where
  "readProperty obj key =
     (case map_of (ownProps obj) key of
        Some constraints \<Rightarrow> Some constraints
      | None \<Rightarrow>
          (case protoObj obj of
             None \<Rightarrow> if key \<in> set OBJECT_PROTOTYPE_KEYS then Some noConstraints else None
           | Some p \<Rightarrow>
               if key = str ''type'' \<and> ctype p \<noteq> None then Some noConstraints
               else if key = str ''allowNull'' \<and> allowNull p \<noteq> None then
                 (if allowNull p = Some True then Some noConstraints else None)
               else if key = str ''__proto__'' then Some p
               else if key \<in> set OBJECT_PROTOTYPE_KEYS then Some noConstraints
               else None))"

definition getFilteredColumnSchemas ::
  "(jstring \<Rightarrow> jstring) \<Rightarrow> HeaderConfig \<Rightarrow> FilteredSchemas" where
  "getFilteredColumnSchemas lc config =
     (case columnSchemas config of
        None \<Rightarrow> emptyObject
      | Some schemas \<Rightarrow>
          if length schemas = 0 then emptyObject
          else
            (let ci = orDefault (caseInsensitive config) False;
                 normalizedExpected = map (normalize_hdr lc ci) (expectedHeaders config)
             in fold (\<lambda>(key, constraints) filtered.
                        let normalizedKey = normalize_hdr lc ci key
                        in if normalizedKey \<in> set normalizedExpected then
                             (let canonicalKey =
                                    orDefault (find (\<lambda>h. normalize_hdr lc ci h = normalizedKey)
                                                    (expectedHeaders config)) key
                              in assignProperty canonicalKey constraints filtered)
                           else filtered)
                     schemas emptyObject))"

definition validateCellForSchema ::
  "(jstring \<Rightarrow> jstring) \<Rightarrow> jstring \<Rightarrow> ColumnConstraints \<Rightarrow> jstring \<Rightarrow> nat
     \<Rightarrow> ValidationFailure option" where
  "validateCellForSchema lc rawStr constraints columnName lineNumber =
     (let ty = orDefault (ctype constraints) TString;
          allowNull = orDefault (allowNull constraints) True;
          trimmed = trim rawStr;
          isEmpty = (trimmed = [])
      in if isEmpty then
           (if \<not> allowNull then
              Some \<lparr>column = columnName, line = lineNumber,
                    reason = str ''Column '' @ [34] @ columnName @ [34] @
                             str '' does not allow null or empty values''\<rparr>
            else None)
         else
           (let valueToCheck = stripSurroundingQuotes trimmed
            in case ty of
                 TString \<Rightarrow> None
               | TNumber \<Rightarrow>
                   if \<not> matches NUMBER_PATTERN valueToCheck then
                     Some \<lparr>column = columnName, line = lineNumber,
                           reason = str ''Column '' @ [34] @ columnName @ [34] @
                                    str '' expects a number; got: '' @ [34] @
                                    preview rawStr @ [34]\<rparr>
                   else None
               | TBoolean \<Rightarrow>
                   if lc valueToCheck \<notin> set BOOLEAN_VALUES then
                     Some \<lparr>column = columnName, line = lineNumber,
                           reason = str ''Column '' @ [34] @ columnName @ [34] @
                                    str '' expects a boolean (T, F, true, false); got: '' @
                                    [34] @ preview rawStr @ [34]\<rparr>
                   else None))"

text \<open>\<^verbatim>\<open>Array.prototype.indexOf\<close>: \<open>None\<close> stands for \<open>-1\<close>.\<close>

definition indexOf :: "'a list \<Rightarrow> 'a \<Rightarrow> nat option" where
  "indexOf xs x = find (\<lambda>i. xs ! i = x) [0..<length xs]"

definition colIndexToConstraints ::
  "(jstring \<Rightarrow> jstring) \<Rightarrow> jstring list \<Rightarrow> HeaderConfig
     \<Rightarrow> (jstring \<times> ColumnConstraints) option list" where
  "colIndexToConstraints lc hs config =
     (let schemas = getFilteredColumnSchemas lc config;
          ci = orDefault (caseInsensitive config) False;
          normalizedHeaders = map (normalize_hdr lc ci) hs;
          expectedNormalized = map (normalize_hdr lc ci) (expectedHeaders config)
      in map (\<lambda>colIndex.
                let normalized = normalizedHeaders ! colIndex
                in case indexOf expectedNormalized normalized of
                     None \<Rightarrow> None
                   | Some expectedIndex \<Rightarrow>
                       (let expectedKey = expectedHeaders config ! expectedIndex
                        in case readProperty schemas expectedKey of
                             None \<Rightarrow> None
                           | Some constraints \<Rightarrow> Some (hs ! colIndex, constraints)))
             [0..<length hs])"

text \<open>What one round of the inner loop pushes for the cell at \<open>colIndex\<close>.\<close>

definition schemaCell ::
  "(jstring \<Rightarrow> jstring) \<Rightarrow> (jstring \<times> ColumnConstraints) option list \<Rightarrow> nat \<Rightarrow> nat
     \<Rightarrow> jstring \<Rightarrow> ValidationFailure list" where
  "schemaCell lc entries rowIndex colIndex cellValue =
     (case nth_opt entries colIndex of
        None \<Rightarrow> []
      | Some None \<Rightarrow> []
      | Some (Some (name, constraints)) \<Rightarrow>
          (case validateCellForSchema lc cellValue constraints name (rowIndex + 1) of
             None \<Rightarrow> []
           | Some failure \<Rightarrow> [failure]))"

definition validateColumnSchemas ::
  "(jstring \<Rightarrow> jstring) \<Rightarrow> jstring list list \<Rightarrow> jstring list \<Rightarrow> HeaderConfig
     \<Rightarrow> ValidationFailure list" where
  "validateColumnSchemas lc data hs config =
     (if length (ownProps (getFilteredColumnSchemas lc config)) = 0 then []
      else
        (let entries = colIndexToConstraints lc hs config
         in concat (map (\<lambda>rowIndex.
              let row = data ! rowIndex
              in if length row = 0 then []
                 else concat (map (\<lambda>colIndex.
                                schemaCell lc entries rowIndex colIndex (row ! colIndex))
                              [0..<length row]))
            [1..<length data])))"

section \<open>The orchestrator (index.ts, validateFile)\<close>

text \<open>
  \<^verbatim>\<open>parseFile\<close> is awaited once; it resolves to a table or rejects with a value, which
  is an \<^verbatim>\<open>Error\<close> carrying its message or anything else. The validators raise nothing
  on a table of strings, so the \<^verbatim>\<open>catch\<close> block is reached from the parser only.
\<close>

datatype thrown = ErrorObject jstring | OtherValue

definition validateFile ::
  "(jstring \<Rightarrow> jstring) \<Rightarrow> thrown + jstring list list \<Rightarrow> ValidationConfig
     \<Rightarrow> ValidationResult" where
  "validateFile lc parsed config =
     (case parsed of
        Inl error \<Rightarrow>
          Failed (str ''Error processing file: '' @
                    (case error of ErrorObject message \<Rightarrow> message
                                 | OtherValue \<Rightarrow> str ''Unknown error''))
                 [\<lparr>column = str ''file'', line = 0,
                   reason = (case error of ErrorObject message \<Rightarrow> message
                                         | OtherValue \<Rightarrow> str ''Unknown error occurred'')\<rparr>]
      | Inr data \<Rightarrow>
          if length data = 0 then
            Failed (str ''File is empty'')
                   [\<lparr>column = str ''file'', line = 0, reason = str ''File contains no data''\<rparr>]
          else
            (let hs = data ! 0
             in case validateHeaders lc hs (headers config) of
                  Some headerFailure \<Rightarrow> Failed (str ''Header validation failed'') [headerFailure]
                | None \<Rightarrow>
                    (let validateSql = orDefault (validateSqlInjection config) True;
                         sqlFailures = validateDataRows data hs validateSql;
                         columnSchemaFailures =
                           (case columnSchemas (headers config) of
                              None \<Rightarrow> []
                            | Some schemas \<Rightarrow>
                                if length schemas > 0
                                then validateColumnSchemas lc data hs (headers config)
                                else []);
                         encodingFailures =
                           (case encoding config of
                              None \<Rightarrow> []
                            | Some ec \<Rightarrow>
                                (case allowedEncodings ec of
                                   None \<Rightarrow> []
                                 | Some allowed \<Rightarrow>
                                     if length allowed > 0
                                     then validateEncoding data hs allowed
                                     else []));
                         allFailures = sqlFailures @ columnSchemaFailures @ encodingFailures
                     in if length allFailures > 0 then
                          Failed (str ''Validation failed: '' @ show_nat (length allFailures) @
                                    str '' issue(s) found'')
                                 allFailures
                        else Success (str ''File validation passed successfully''))))"

section \<open>Notions used to state the properties\<close>

text \<open>
  The failures that the orchestrator collects once the header row has passed: pattern
  failures, then schema failures, then encoding failures.
\<close>

definition aggregate ::
  "(jstring \<Rightarrow> jstring) \<Rightarrow> jstring list list \<Rightarrow> ValidationConfig \<Rightarrow> ValidationFailure list" where
  "aggregate lc data config =
     validateDataRows data (data ! 0) (orDefault (validateSqlInjection config) True) @
     validateColumnSchemas lc data (data ! 0) (headers config) @
     (case encoding config of
        None \<Rightarrow> []
      | Some ec \<Rightarrow>
          (case allowedEncodings ec of
             None \<Rightarrow> []
           | Some allowed \<Rightarrow> validateEncoding data (data ! 0) allowed))"

text \<open>
  The lower-casing of the runtime on strings of ASCII characters, for the examples.
\<close>

definition lowerASCII :: "jstring \<Rightarrow> jstring" where
  "lowerASCII s = map (\<lambda>c. if 65 \<le> c \<and> c \<le> 90 then c + 32 else c) s"

text \<open>
  An example policy: headers Name and Age, Age a number that must be present, the content
  check at its default, and the encoding UTF8. In the example table the first cell is
  the letter e with an acute accent (0xE9) followed by a semicolon.
\<close>

definition exConfig :: ValidationConfig where
  "exConfig =
     \<lparr>headers = \<lparr>expectedHeaders = [str ''Name'', str ''Age''], strictOrder = None,
                  caseInsensitive = None,
                  columnSchemas =
                    Some [(str ''Age'', \<lparr>ctype = Some TNumber, allowNull = Some False\<rparr>)]\<rparr>,
       validateSqlInjection = None,
       encoding = Some \<lparr>allowedEncodings = Some [UTF8]\<rparr>\<rparr>"

definition exTable :: "jstring list list" where
  "exTable = [[str ''Name'', str ''Age''], [[233, 59], str ''x'']]"

text \<open>A table whose header row lacks Age and whose data cell is a semicolon.\<close>

definition exBadHeaderTable :: "jstring list list" where
  "exBadHeaderTable = [[str ''Name''], [str '';'']]"

text \<open>A table whose data row is shorter than the header row: the cell of Age is absent.\<close>

definition exRaggedTable :: "jstring list list" where
  "exRaggedTable = [[str ''Name'', str ''Age''], [str ''Bob'']]"

text \<open>A table whose cell of Age is present and blank.\<close>

definition exBlankTable :: "jstring list list" where
  "exBlankTable = [[str ''Name'', str ''Age''], [str ''Bob'', str ''  '']]"

text \<open>
  What the three validators report on the data rows alone, the header row taking part
  only as the list of column names: the table they read has an empty row in its place.
\<close>

definition dataRowFailures ::
  "(jstring \<Rightarrow> jstring) \<Rightarrow> jstring list \<Rightarrow> jstring list list \<Rightarrow> ValidationConfig
     \<Rightarrow> ValidationFailure list" where
  "dataRowFailures lc hs rows config =
     validateDataRows ([] # rows) hs (orDefault (validateSqlInjection config) True) @
     validateColumnSchemas lc ([] # rows) hs (headers config) @
     (case encoding config of
        None \<Rightarrow> []
      | Some ec \<Rightarrow>
          (case allowedEncodings ec of
             None \<Rightarrow> []
           | Some allowed \<Rightarrow> validateEncoding ([] # rows) hs allowed))"

text \<open>
  A header cell that holds a character outside the range of UTF8, a statement terminator
  and a comment, and is not a number, in the header row of a table whose only data cell
  is the number 1; the policy expects this header, makes its column a number that must be
  present, and allows UTF8 only.
\<close>

definition exDirtyHeader :: jstring where
  "exDirtyHeader = [233] @ str ''; DROP TABLE x--''"

definition exDirtyConfig :: ValidationConfig where
  "exDirtyConfig =
     \<lparr>headers = \<lparr>expectedHeaders = [exDirtyHeader], strictOrder = Some True,
                  caseInsensitive = Some False,
                  columnSchemas =
                    Some [(exDirtyHeader, \<lparr>ctype = Some TNumber, allowNull = Some False\<rparr>)]\<rparr>,
       validateSqlInjection = Some True,
       encoding = Some \<lparr>allowedEncodings = Some [UTF8]\<rparr>\<rparr>"

definition exDirtyHeaderTable :: "jstring list list" where
  "exDirtyHeaderTable = [[exDirtyHeader], [str ''1'']]"

text \<open>
  The language of a regular expression: the strings that match it as a whole.
\<close>

definition conc :: "jstring set \<Rightarrow> jstring set \<Rightarrow> jstring set" where
  "conc A B = {u @ v | u v. u \<in> A \<and> v \<in> B}"

inductive_set star :: "jstring set \<Rightarrow> jstring set" for A :: "jstring set" where
  star_nil: "[] \<in> star A"
| star_step: "u \<in> A \<Longrightarrow> v \<in> star A \<Longrightarrow> u @ v \<in> star A"

fun lang :: "rx \<Rightarrow> jstring set" where
  "lang Nul = {}"
| "lang Eps = {[]}"
| "lang (Atom p) = {[c] | c. p c}"
| "lang (Seq r s) = conc (lang r) (lang s)"
| "lang (Alt r s) = lang r \<union> lang s"
| "lang (Star r) = star (lang r)"

text \<open>
  The numeric grammar in the words of the specification: an optional leading minus, then
  either one or more digits optionally followed by a decimal point and zero or more
  digits, or a decimal point followed by one or more digits.
\<close>

definition digit_string :: "jstring \<Rightarrow> bool" where
  "digit_string s \<longleftrightarrow> list_all is_digit s"

definition number_grammar :: "jstring \<Rightarrow> bool" where
  "number_grammar v \<longleftrightarrow>
     (\<exists>sign body. v = sign @ body \<and> (sign = [] \<or> sign = [45]) \<and>
        ((\<exists>ds frac. body = ds @ frac \<and> ds \<noteq> [] \<and> digit_string ds \<and>
                     (frac = [] \<or> (\<exists>fs. frac = 46 # fs \<and> digit_string fs)))
         \<or> (\<exists>fs. body = 46 # fs \<and> fs \<noteq> [] \<and> digit_string fs)))"

text \<open>A cell of 51 characters that is not a number.\<close>

definition exLongCell :: jstring where
  "exLongCell = str ''1.2.3'' @ str ''0000000000000000000000000000000000000000000000''"

text \<open>
  Two policies whose schema object has the own key \<^verbatim>\<open>__proto__\<close>, with
  \<^verbatim>\<open>allowNull: false\<close>: alone, and together with the key Age.
\<close>

definition exProtoOnly :: HeaderConfig where
  "exProtoOnly =
     \<lparr>expectedHeaders = [str ''__proto__''], strictOrder = None, caseInsensitive = None,
      columnSchemas = Some [(str ''__proto__'', \<lparr>ctype = None, allowNull = Some False\<rparr>)]\<rparr>"

definition exProtoAndAge :: HeaderConfig where
  "exProtoAndAge =
     \<lparr>expectedHeaders = [str ''__proto__'', str ''Age''], strictOrder = None,
      caseInsensitive = None,
      columnSchemas = Some [(str ''__proto__'', \<lparr>ctype = None, allowNull = Some False\<rparr>),
                            (str ''Age'', \<lparr>ctype = Some TNumber, allowNull = None\<rparr>)]\<rparr>"

section \<open>Evaluation of the examples\<close>

lemmas string_eval = str_def trim_def is_space_def show_nat.simps to_hex.simps hex_digit_def
  padStart_def preview_def nth_opt_def orDefault_def normalize_hdr_def Let_def

lemmas schema_eval = getFilteredColumnSchemas_def colIndexToConstraints_def indexOf_def
  assignProperty_def readProperty_def emptyObject_def noConstraints_def
  OBJECT_PROTOTYPE_KEYS_def

lemmas rx_eval = lit_def liti_def ch_def chi_def canon_def Plus_def Opt_def space_def
  digit_def dot_def is_digit_def

section \<open>Header validation\<close>

lemma concat_map_nth:
  "concat (map (\<lambda>i. g (xs ! i)) [0..<length xs]) = concat (map g xs)"
proof -
  have "map (\<lambda>i. g (xs ! i)) [0..<length xs] = map g (map (\<lambda>i. xs ! i) [0..<length xs])"
    by simp
  also have "\<dots> = map g xs"
    by (simp only: map_nth)
  finally show ?thesis by simp
qed

lemma concat_map_if_filter:
  "concat (map (\<lambda>x. if P x then [x] else []) xs) = filter P xs"
  by (induction xs) simp_all

lemma missingHeaders_filter:
  "missingHeaders expected (map f expected) nh = filter (\<lambda>e. f e \<notin> set nh) expected"
proof -
  have "missingHeaders expected (map f expected) nh =
          concat (map (\<lambda>i. if f (expected ! i) \<notin> set nh then [expected ! i] else [])
                      [0..<length expected])"
    unfolding missingHeaders_def by (rule arg_cong [where f = concat]) simp
  also have "\<dots> = concat (map (\<lambda>e. if f e \<notin> set nh then [e] else []) expected)"
    by (rule concat_map_nth)
  also have "\<dots> = filter (\<lambda>e. f e \<notin> set nh) expected"
    by (rule concat_map_if_filter)
  finally show ?thesis .
qed

lemma validateHeaders_exact:
  assumes "map (normalize_hdr lc (orDefault (caseInsensitive config) False)) hs =
           map (normalize_hdr lc (orDefault (caseInsensitive config) False))
               (expectedHeaders config)"
  shows "validateHeaders lc hs config = None"
proof -
  let ?n = "normalize_hdr lc (orDefault (caseInsensitive config) False)"
  have m: "missingHeaders (expectedHeaders config) (map ?n (expectedHeaders config))
             (map ?n hs) = []"
    unfolding missingHeaders_filter assms by (simp add: filter_empty_conv)
  have f: "find (\<lambda>i. map ?n hs ! i \<noteq> map ?n (expectedHeaders config) ! i) xs = None" for xs
    unfolding assms by (simp add: find_None_iff)
  have l: "length (map ?n hs) = length (map ?n (expectedHeaders config))"
    unfolding assms ..
  show ?thesis
    unfolding validateHeaders_def Let_def m f l by simp
qed

lemma validateHeaders_missing:
  assumes "filter (\<lambda>e. normalize_hdr lc (orDefault (caseInsensitive config) False) e
                         \<notin> set (map (normalize_hdr lc (orDefault (caseInsensitive config) False)) hs))
                  (expectedHeaders config) = missing"
    and "missing \<noteq> []"
  shows "validateHeaders lc hs config =
           Some \<lparr>column = str ''headers'', line = 1,
                 reason = str ''Missing required headers: '' @ join (str '', '') missing\<rparr>"
proof -
  let ?n = "normalize_hdr lc (orDefault (caseInsensitive config) False)"
  have m: "missingHeaders (expectedHeaders config) (map ?n (expectedHeaders config))
             (map ?n hs) = missing"
    using assms(1) by (simp add: missingHeaders_filter)
  show ?thesis
    unfolding validateHeaders_def Let_def m using assms(2) by simp
qed

text \<open>
  Claim C8. If the normalized form of some expected header does not occur in the
  normalized observed row, the header validator returns one failure with column
  \<^verbatim>\<open>headers\<close> and line 1 whose reason lists the original names of all missing expected
  headers, joined by a comma and a space, in the expected order. The result is the same
  for every setting of \<^verbatim>\<open>strictOrder\<close> and whatever the length and the order of the
  observed row are, so the check comes before the count and the positional checks.
\<close>

theorem missing_headers_reported:
  assumes "\<exists>e \<in> set (expectedHeaders config).
             normalize_hdr lc (orDefault (caseInsensitive config) False) e
               \<notin> set (map (normalize_hdr lc (orDefault (caseInsensitive config) False)) hs)"
  shows "validateHeaders lc hs (config\<lparr>strictOrder := so\<rparr>) =
           Some \<lparr>column = str ''headers'', line = 1,
                 reason = str ''Missing required headers: '' @
                   join (str '', '')
                     (filter (\<lambda>e. normalize_hdr lc (orDefault (caseInsensitive config) False) e
                                    \<notin> set (map (normalize_hdr lc
                                                  (orDefault (caseInsensitive config) False)) hs))
                             (expectedHeaders config))\<rparr>"
proof -
  let ?n = "normalize_hdr lc (orDefault (caseInsensitive config) False)"
  have "filter (\<lambda>e. ?n e \<notin> set (map ?n hs)) (expectedHeaders config) \<noteq> []"
    using assms by (simp add: filter_empty_conv)
  then show ?thesis
    using validateHeaders_missing [of lc "config\<lparr>strictOrder := so\<rparr>" hs] by simp
qed

theorem missing_headers_reported_witness:
  "validateHeaders lowerASCII [str '' Age '', str ''Name'']
     \<lparr>expectedHeaders = [str ''Name'', str ''Email'', str ''Age'', str ''Phone''],
      strictOrder = Some False, caseInsensitive = None, columnSchemas = None\<rparr> =
   Some \<lparr>column = str ''headers'', line = 1,
         reason = str ''Missing required headers: Email, Phone''\<rparr>"
  using missing_headers_reported [of
      "\<lparr>expectedHeaders = [str ''Name'', str ''Email'', str ''Age'', str ''Phone''],
        strictOrder = None, caseInsensitive = None, columnSchemas = None\<rparr>"
      lowerASCII "[str '' Age '', str ''Name'']" "Some False"]
  by (simp add: string_eval)

section \<open>The orchestrator\<close>

lemma validateColumnSchemas_unconfigured:
  "columnSchemas c = None \<or> columnSchemas c = Some [] \<Longrightarrow>
     validateColumnSchemas lc data hs c = []"
  by (auto simp: validateColumnSchemas_def getFilteredColumnSchemas_def emptyObject_def)

lemma validateEncoding_Nil: "validateEncoding data hs [] = []"
  by (simp add: validateEncoding_def)

lemma replicate_eval:
  "replicate 1 x = [x]" "replicate 2 x = [x, x]" "replicate 3 x = [x, x, x]"
  by (simp_all add: numeral_2_eq_2 numeral_3_eq_3)

lemma ex_headers: "validateHeaders lowerASCII (exTable ! 0) (headers exConfig) = None"
  by (rule validateHeaders_exact) (simp add: exTable_def exConfig_def)

lemma ex_sql: "validateDataRows exTable (exTable ! 0) True =
   [\<lparr>column = str ''Name'', line = 2,
     reason = str ''Contains potentially dangerous SQL pattern (Statement terminator): '' @
              [34, 233, 59, 34]\<rparr>]"
  by (simp add: exTable_def validateDataRows_def emptyRow_def sqlCell_def
        SQL_DANGEROUS_PATTERNS_def columnLabel_def string_eval rx_eval)

lemma ex_schema: "validateColumnSchemas lowerASCII exTable (exTable ! 0) (headers exConfig) =
   [\<lparr>column = str ''Age'', line = 2,
     reason = str ''Column '' @ [34] @ str ''Age'' @ [34] @ str '' expects a number; got: '' @
              [34] @ str ''x'' @ [34]\<rparr>]"
  by (simp add: exTable_def exConfig_def validateColumnSchemas_def schema_eval
        schemaCell_def validateCellForSchema_def
        stripSurroundingQuotes_def NUMBER_PATTERN_def string_eval rx_eval)

lemma ex_enc: "validateEncoding exTable (exTable ! 0) [UTF8] =
   [\<lparr>column = str ''Name'', line = 2,
     reason = str ''Contains character '' @ [34, 233, 34] @
              str '' (0x00E9) not allowed in specified encodings: UTF8''\<rparr>]"
  by (simp add: exTable_def validateEncoding_def emptyRow_def encodingCell_def isValid_def
        isValidForEncoding_def columnLabel_def string_eval replicate_eval)

lemma ex_bad_headers:
  "validateHeaders lowerASCII (exBadHeaderTable ! 0) (headers exConfig) =
     Some \<lparr>column = str ''headers'', line = 1, reason = str ''Missing required headers: Age''\<rparr>"
  using validateHeaders_missing [of lowerASCII "headers exConfig" "exBadHeaderTable ! 0" "[str ''Age'']"]
  by (simp add: exBadHeaderTable_def exConfig_def string_eval)

lemma validateFile_after_headers:
  assumes "data \<noteq> []" and "validateHeaders lc (data ! 0) (headers config) = None"
  shows "validateFile lc (Inr data) config =
           (if aggregate lc data config \<noteq> []
            then Failed (str ''Validation failed: '' @
                           show_nat (length (aggregate lc data config)) @
                           str '' issue(s) found'')
                        (aggregate lc data config)
            else Success (str ''File validation passed successfully''))"
proof -
  have cs: "(case columnSchemas (headers config) of None \<Rightarrow> []
             | Some schemas \<Rightarrow> if length schemas > 0
                 then validateColumnSchemas lc data (data ! 0) (headers config) else [])
            = validateColumnSchemas lc data (data ! 0) (headers config)"
    by (cases "columnSchemas (headers config)")
       (auto simp: validateColumnSchemas_unconfigured)
  have en: "(case encoding config of None \<Rightarrow> []
             | Some ec \<Rightarrow>
                (case allowedEncodings ec of None \<Rightarrow> []
                 | Some allowed \<Rightarrow>
                     if length allowed > 0 then validateEncoding data (data ! 0) allowed else []))
            = (case encoding config of None \<Rightarrow> []
               | Some ec \<Rightarrow>
                  (case allowedEncodings ec of None \<Rightarrow> []
                   | Some allowed \<Rightarrow> validateEncoding data (data ! 0) allowed))"
    by (auto simp: validateEncoding_Nil split: option.splits)
  have "validateFile lc (Inr data) config =
          (let allFailures = aggregate lc data config
           in if length allFailures > 0
              then Failed (str ''Validation failed: '' @ show_nat (length allFailures) @
                             str '' issue(s) found'') allFailures
              else Success (str ''File validation passed successfully''))"
    using assms by (simp add: validateFile_def aggregate_def Let_def cs en)
  then show ?thesis by (simp add: Let_def)
qed

text \<open>
  Claim C1. For a table with at least one row whose header row passes header validation,
  the orchestrator concatenates the pattern failures, the schema failures and the encoding
  failures in this order (a validator that is not configured contributes nothing); when
  the concatenation is not empty the outcome is a failure with the message
  \<^verbatim>\<open>Validation failed: <count> issue(s) found\<close>, the count being the length of the
  sequence, and the whole sequence; otherwise it is a success with the message
  \<^verbatim>\<open>File validation passed successfully\<close>.
\<close>

theorem validateFile_aggregates:
  assumes "data \<noteq> []" and "validateHeaders lc (data ! 0) (headers config) = None"
  shows "validateFile lc (Inr data) config =
           (if aggregate lc data config \<noteq> []
            then Failed (str ''Validation failed: '' @
                           show_nat (length (aggregate lc data config)) @
                           str '' issue(s) found'')
                        (aggregate lc data config)
            else Success (str ''File validation passed successfully''))"
  using assms by (rule validateFile_after_headers)

theorem validateFile_aggregates_witness:
  "validateFile lowerASCII (Inr exTable) exConfig =
     Failed (str ''Validation failed: 3 issue(s) found'')
       [\<lparr>column = str ''Name'', line = 2,
         reason = str ''Contains potentially dangerous SQL pattern (Statement terminator): '' @
                  [34, 233, 59, 34]\<rparr>,
        \<lparr>column = str ''Age'', line = 2,
         reason = str ''Column '' @ [34] @ str ''Age'' @ [34] @
                  str '' expects a number; got: '' @ [34] @ str ''x'' @ [34]\<rparr>,
        \<lparr>column = str ''Name'', line = 2,
         reason = str ''Contains character '' @ [34, 233, 34] @
                  str '' (0x00E9) not allowed in specified encodings: UTF8''\<rparr>]"
proof -
  have ne: "exTable \<noteq> []" by (simp add: exTable_def)
  have enc: "encoding exConfig = Some \<lparr>allowedEncodings = Some [UTF8]\<rparr>"
    and sql: "validateSqlInjection exConfig = None"
    by (simp_all add: exConfig_def)
  have agg: "aggregate lowerASCII exTable exConfig =
               validateDataRows exTable (exTable ! 0) True @
               validateColumnSchemas lowerASCII exTable (exTable ! 0) (headers exConfig) @
               validateEncoding exTable (exTable ! 0) [UTF8]"
    by (simp add: aggregate_def enc sql orDefault_def)
  show ?thesis
    using validateFile_aggregates [OF ne ex_headers]
    by (simp add: agg ex_sql ex_schema ex_enc show_nat.simps str_def)
qed

text \<open>
  Claim C2. When the header validator returns a failure, the outcome is a failure with the
  message \<^verbatim>\<open>Header validation failed\<close> whose failure sequence is exactly that one
  failure: nothing of the pattern, schema and encoding validators appears in it.
\<close>

theorem header_failure_gates:
  assumes "data \<noteq> []" and "validateHeaders lc (data ! 0) (headers config) = Some f"
  shows "validateFile lc (Inr data) config = Failed (str ''Header validation failed'') [f]"
  using assms by (simp add: validateFile_def)

theorem header_failure_gates_witness:
  "validateFile lowerASCII (Inr exBadHeaderTable) exConfig =
     Failed (str ''Header validation failed'')
       [\<lparr>column = str ''headers'', line = 1,
         reason = str ''Missing required headers: Age''\<rparr>]"
proof -
  have ne: "exBadHeaderTable \<noteq> []" by (simp add: exBadHeaderTable_def)
  show ?thesis
    using header_failure_gates [OF ne ex_bad_headers] .
qed

text \<open>
  Claim C3. The entry point returns an outcome on every path. When the parser rejects,
  the outcome is a failure carrying exactly one failure with column \<^verbatim>\<open>file\<close> and line 0,
  whose reason is the message of the error when the rejected value is an error object,
  and \<^verbatim>\<open>Unknown error occurred\<close> when it is not.
\<close>

theorem parser_error_caught:
  "validateFile lc (Inl (ErrorObject message)) config =
     Failed (str ''Error processing file: '' @ message)
            [\<lparr>column = str ''file'', line = 0, reason = message\<rparr>]
   \<and> validateFile lc (Inl OtherValue) config =
     Failed (str ''Error processing file: Unknown error'')
            [\<lparr>column = str ''file'', line = 0, reason = str ''Unknown error occurred''\<rparr>]"
  by (simp add: validateFile_def str_def)

theorem parser_error_caught_witness:
  "validateFile lowerASCII (Inl (ErrorObject (str ''Parse failed''))) exConfig =
     Failed (str ''Error processing file: Parse failed'')
            [\<lparr>column = str ''file'', line = 0, reason = str ''Parse failed''\<rparr>]"
  using parser_error_caught [of lowerASCII "str ''Parse failed''" exConfig]
  by (simp add: str_def)

section \<open>Character encoding\<close>

lemma isValid_iff:
  "isValid allowed c \<longleftrightarrow>
     (\<exists>enc \<in> set allowed. fst (ENCODING_RANGES enc) \<le> c \<and> c \<le> snd (ENCODING_RANGES enc))"
  by (simp add: isValid_def isValidForEncoding_def list_ex_iff case_prod_beta)

lemma to_hex_length: "n < 16 ^ Suc k \<Longrightarrow> length (to_hex n) \<le> Suc k"
proof (induction k arbitrary: n)
  case 0
  then show ?case by (subst to_hex.simps) simp
next
  case (Suc k)
  show ?case
  proof (cases "n < 16")
    case True
    then show ?thesis by (subst to_hex.simps) simp
  next
    case False
    from Suc.prems have "n div 16 < 16 ^ Suc k"
      by (simp add: less_mult_imp_div_less mult.commute)
    then have "length (to_hex (n div 16)) \<le> Suc k" by (rule Suc.IH)
    with False show ?thesis by (subst to_hex.simps) simp
  qed
qed

lemma to_hex_nonempty: "to_hex n \<noteq> []"
  by (subst to_hex.simps) simp

lemma padded_hex_length: "cu < 65536 \<Longrightarrow> length (padStart 4 48 (to_hex cu)) = 4"
proof -
  assume "cu < 65536"
  then have "cu < 16 ^ Suc 3" by simp
  then have "length (to_hex cu) \<le> Suc 3" by (rule to_hex_length)
  then show ?thesis by (simp add: padStart_def)
qed

lemma encodingCell_valid:
  "\<forall>cu \<in> set cell. isValid allowed cu \<Longrightarrow> encodingCell hs allowed r c cell = []"
proof -
  assume a: "\<forall>cu \<in> set cell. isValid allowed cu"
  have "find (\<lambda>charIndex. \<not> isValid allowed (cell ! charIndex)) [0..<length cell] = None"
    using a by (simp add: find_None_iff)
  then show ?thesis by (simp add: encodingCell_def)
qed

lemma encodingCell_invalid:
  assumes "i < length cell" and "\<not> isValid allowed (cell ! i)"
    and "\<forall>j<i. isValid allowed (cell ! j)"
  shows "encodingCell hs allowed r c cell =
           [\<lparr>column = columnLabel hs c, line = r + 1,
             reason = str ''Contains character '' @ [34] @ [cell ! i] @ [34] @ str '' ('' @
                      str ''0x'' @ padStart 4 48 (to_hex (cell ! i)) @
                      str '') not allowed in specified encodings: '' @
                      join (str '', '') (map encodingName allowed)\<rparr>]"
proof -
  have "find (\<lambda>charIndex. \<not> isValid allowed (cell ! charIndex)) [0..<length cell] = Some i"
    using assms by (auto simp: find_Some_iff intro!: exI [of _ i])
  moreover have "cell \<noteq> []" using assms(1) by auto
  ultimately show ?thesis by (simp add: encodingCell_def Let_def)
qed

lemma validateEncoding_set:
  "allowed \<noteq> [] \<Longrightarrow>
   set (validateEncoding data hs allowed) =
     (\<Union>r \<in> {1..<length data}.
        if emptyRow (data ! r) then {}
        else (\<Union>c \<in> {0..<length (data ! r)}. set (encodingCell hs allowed r c (data ! r ! c))))"
  by (auto simp: validateEncoding_def Let_def split: if_splits)

lemma ex_accent_latin1:
  "validateEncoding [[str ''Name''], [[233]]] [str ''Name''] [LATIN1] = []"
  by (simp add: validateEncoding_def emptyRow_def encodingCell_def isValid_def
        isValidForEncoding_def)

lemma ex_accent_utf8:
  "validateEncoding [[str ''Name''], [[233]]] [str ''Name''] [UTF8] =
     [\<lparr>column = str ''Name'', line = 2,
       reason = str ''Contains character '' @ [34, 233, 34] @
                str '' (0x00E9) not allowed in specified encodings: UTF8''\<rparr>]"
  by (simp add: validateEncoding_def emptyRow_def encodingCell_def isValid_def
        isValidForEncoding_def columnLabel_def string_eval replicate_eval)

text \<open>
  Claim C9. A character is valid exactly when its code lies in the inclusive range of at
  least one allowed encoding, the ranges being 0 to 0x7F for ASCII, UTF8 and UTF16 and 0
  to 0xFF for LATIN1 and WINDOWS1252. For a cell that is not empty, the validator pushes
  nothing when every character is valid and otherwise exactly one failure, for the first
  invalid character: its reason names the character, its code in hexadecimal padded with
  zeros to four digits, and the allowed encodings. What is pushed for a cell of a row that
  is not skipped is part of the result. The letter e with an acute accent (0xE9) is
  flagged under UTF8 and passes under LATIN1.
\<close>

theorem encoding_union_first_invalid:
  "(isValid allowed cu \<longleftrightarrow>
      (\<exists>enc \<in> set allowed. fst (ENCODING_RANGES enc) \<le> cu \<and> cu \<le> snd (ENCODING_RANGES enc)))
   \<and> ENCODING_RANGES ASCII = (0, 0x7F) \<and> ENCODING_RANGES UTF8 = (0, 0x7F)
   \<and> ENCODING_RANGES UTF16 = (0, 0x7F) \<and> ENCODING_RANGES LATIN1 = (0, 0xFF)
   \<and> ENCODING_RANGES WINDOWS1252 = (0, 0xFF)
   \<and> ((\<forall>x \<in> set cell. isValid allowed x) \<longrightarrow> encodingCell hs allowed r c cell = [])
   \<and> (i < length cell \<and> \<not> isValid allowed (cell ! i) \<and> (\<forall>j<i. isValid allowed (cell ! j)) \<longrightarrow>
        encodingCell hs allowed r c cell =
          [\<lparr>column = columnLabel hs c, line = r + 1,
            reason = str ''Contains character '' @ [34] @ [cell ! i] @ [34] @ str '' ('' @
                     str ''0x'' @ padStart 4 48 (to_hex (cell ! i)) @
                     str '') not allowed in specified encodings: '' @
                     join (str '', '') (map encodingName allowed)\<rparr>])
   \<and> (cu < 65536 \<longrightarrow> length (padStart 4 48 (to_hex cu)) = 4)
   \<and> (allowed \<noteq> [] \<and> 1 \<le> r \<and> r < length data \<and> \<not> emptyRow (data ! r) \<and> c < length (data ! r) \<longrightarrow>
        set (encodingCell hs allowed r c (data ! r ! c)) \<subseteq> set (validateEncoding data hs allowed))
   \<and> validateEncoding [[str ''Name''], [[233]]] [str ''Name''] [UTF8] =
        [\<lparr>column = str ''Name'', line = 2,
          reason = str ''Contains character '' @ [34, 233, 34] @
                   str '' (0x00E9) not allowed in specified encodings: UTF8''\<rparr>]
   \<and> validateEncoding [[str ''Name''], [[233]]] [str ''Name''] [LATIN1] = []"
proof -
  have sub: "allowed \<noteq> [] \<and> 1 \<le> r \<and> r < length data \<and> \<not> emptyRow (data ! r) \<and> c < length (data ! r) \<longrightarrow>
        set (encodingCell hs allowed r c (data ! r ! c)) \<subseteq> set (validateEncoding data hs allowed)"
  proof (intro impI subsetI, elim conjE)
    fix f
    assume a: "allowed \<noteq> []" "1 \<le> r" "r < length data" "\<not> emptyRow (data ! r)"
      "c < length (data ! r)" and f: "f \<in> set (encodingCell hs allowed r c (data ! r ! c))"
    show "f \<in> set (validateEncoding data hs allowed)"
      unfolding validateEncoding_set [OF a(1)] using a f by force
  qed
  show ?thesis
    using isValid_iff [of allowed cu] encodingCell_valid [of cell allowed hs r c]
      encodingCell_invalid [of i cell allowed hs r c] padded_hex_length [of cu] sub
      ex_accent_utf8 ex_accent_latin1
    by simp
qed

theorem encoding_union_first_invalid_witness:
  "isValid [UTF8, LATIN1] 233 \<and> \<not> isValid [UTF8] 233
   \<and> encodingCell [str ''Name''] [UTF8] 1 0 [65, 233, 955] =
       [\<lparr>column = str ''Name'', line = 2,
         reason = str ''Contains character '' @ [34, 233, 34] @
                  str '' (0x00E9) not allowed in specified encodings: UTF8''\<rparr>]
   \<and> encodingCell [str ''Name''] [LATIN1] 1 0 [65, 233] = []
   \<and> length (padStart 4 48 (to_hex 233)) = 4
   \<and> set (encodingCell [str ''Name''] [UTF8] 1 0 [65, 233, 955]) \<subseteq>
       set (validateEncoding [[str ''Name''], [[65, 233, 955]]] [str ''Name''] [UTF8])"
proof -
  have v: "isValid [UTF8, LATIN1] 233" "\<not> isValid [UTF8] 233" "isValid [UTF8] 65"
    "\<forall>x \<in> set [65, 233]. isValid [LATIN1] x"
    by (simp_all add: isValid_def isValidForEncoding_def)
  have h: "padStart 4 48 (to_hex 233) = str ''00E9''"
    by (simp add: string_eval replicate_eval)
  note th = encoding_union_first_invalid [of "[UTF8]" 233 "[65, 233, 955]" "[str ''Name'']" 1 0 1
      "[[str ''Name''], [[65, 233, 955]]]"]
  have u: "isValid [UTF8, LATIN1] 233 \<and> \<not> isValid [UTF8] 233"
    using encoding_union_first_invalid [of "[UTF8, LATIN1]" 233 "[]" "[]" 0 0 0 "[]"]
      encoding_union_first_invalid [of "[UTF8]" 233 "[]" "[]" 0 0 0 "[]"]
    by simp
  have "encodingCell [str ''Name''] [UTF8] 1 0 [65, 233, 955] =
          [\<lparr>column = columnLabel [str ''Name''] 0, line = 1 + 1,
            reason = str ''Contains character '' @ [34] @ [[65, 233, 955] ! 1] @ [34] @ str '' ('' @
                     str ''0x'' @ padStart 4 48 (to_hex ([65, 233, 955] ! 1)) @
                     str '') not allowed in specified encodings: '' @
                     join (str '', '') (map encodingName [UTF8])\<rparr>]"
    using th v by (simp add: less_Suc_eq)
  then have one: "encodingCell [str ''Name''] [UTF8] 1 0 [65, 233, 955] =
       [\<lparr>column = str ''Name'', line = 2,
         reason = str ''Contains character '' @ [34, 233, 34] @
                  str '' (0x00E9) not allowed in specified encodings: UTF8''\<rparr>]"
    by (simp add: h columnLabel_def nth_opt_def str_def)
  have two: "encodingCell [str ''Name''] [LATIN1] 1 0 [65, 233] = []"
    using encoding_union_first_invalid [of "[LATIN1]" 233 "[65, 233]" "[str ''Name'']" 1 0 1 "[]"] v
    by simp
  have three: "length (padStart 4 48 (to_hex 233)) = 4"
    using th by simp
  have four: "set (encodingCell [str ''Name''] [UTF8] 1 0 [65, 233, 955]) \<subseteq>
       set (validateEncoding [[str ''Name''], [[65, 233, 955]]] [str ''Name''] [UTF8])"
    using th by (simp add: emptyRow_def)
  show ?thesis using u one two three four by blast
qed

section \<open>Content patterns\<close>

lemma find_first_index:
  assumes "k < length xs" and "P (xs ! k)" and "\<forall>j<k. \<not> P (xs ! j)"
  shows "find P xs = Some (xs ! k)"
  using assms by (auto simp: find_Some_iff)

lemma find_none_index:
  assumes "\<forall>k<length xs. \<not> P (xs ! k)"
  shows "find P xs = None"
  using assms by (auto simp: find_None_iff in_set_conv_nth)

lemma sqlCell_at_most_one: "length (sqlCell hs r c cell) \<le> 1"
  by (simp add: sqlCell_def Let_def split: option.splits prod.splits)

lemma sqlCell_first_match:
  assumes "trim cell \<noteq> []" and "k < length SQL_DANGEROUS_PATTERNS"
    and "test (fst (SQL_DANGEROUS_PATTERNS ! k)) (trim cell)"
    and "\<forall>j<k. \<not> test (fst (SQL_DANGEROUS_PATTERNS ! j)) (trim cell)"
  shows "sqlCell hs r c cell =
           [\<lparr>column = columnLabel hs c, line = r + 1,
             reason = str ''Contains potentially dangerous SQL pattern ('' @
                      snd (SQL_DANGEROUS_PATTERNS ! k) @ str ''): '' @ [34] @
                      take 50 (trim cell) @
                      (if length (trim cell) > 50 then str ''...'' else []) @ [34]\<rparr>]"
proof -
  have "find (\<lambda>(pattern, description). test pattern (trim cell)) SQL_DANGEROUS_PATTERNS =
          Some (SQL_DANGEROUS_PATTERNS ! k)"
    using assms(2-4) by (intro find_first_index) (simp_all add: case_prod_beta)
  then show ?thesis
    using assms(1) by (simp add: sqlCell_def Let_def case_prod_beta)
qed

lemma sqlCell_no_match:
  assumes "\<forall>k<length SQL_DANGEROUS_PATTERNS. \<not> test (fst (SQL_DANGEROUS_PATTERNS ! k)) (trim cell)"
  shows "sqlCell hs r c cell = []"
proof -
  have "find (\<lambda>(pattern, description). test pattern (trim cell)) SQL_DANGEROUS_PATTERNS = None"
    using assms by (intro find_none_index) (simp add: case_prod_beta)
  then show ?thesis
    by (simp add: sqlCell_def Let_def)
qed

lemma validateDataRows_set:
  "set (validateDataRows data hs True) =
     (\<Union>r \<in> {1..<length data}.
        if emptyRow (data ! r) then {}
        else (\<Union>c \<in> {0..<length (data ! r)}. set (sqlCell hs r c (data ! r ! c))))"
  by (auto simp: validateDataRows_def Let_def split: if_splits)

lemma sqlCell_in_result:
  assumes "1 \<le> r" "r < length data" "\<not> emptyRow (data ! r)" "c < length (data ! r)"
  shows "set (sqlCell hs r c (data ! r ! c)) \<subseteq> set (validateDataRows data hs True)"
  unfolding validateDataRows_set using assms by force

lemma trim_drop_table: "trim (str ''; DROP TABLE users'') = str ''; DROP TABLE users''"
  by (simp add: string_eval)

lemma sqlCell_drop_table:
  "sqlCell hs r c (str ''; DROP TABLE users'') =
     [\<lparr>column = columnLabel hs c, line = r + 1,
       reason = str ''Contains potentially dangerous SQL pattern (Statement terminator): '' @
                [34] @ str ''; DROP TABLE users'' @ [34]\<rparr>]"
proof -
  have t: "test (fst (SQL_DANGEROUS_PATTERNS ! 0)) (trim (str ''; DROP TABLE users''))"
    unfolding trim_drop_table by (simp add: SQL_DANGEROUS_PATTERNS_def str_def rx_eval)
  have d: "snd (SQL_DANGEROUS_PATTERNS ! 0) = str ''Statement terminator''"
    by (simp add: SQL_DANGEROUS_PATTERNS_def)
  have n: "trim (str ''; DROP TABLE users'') \<noteq> []"
    unfolding trim_drop_table by (simp add: str_def)
  have l: "0 < length SQL_DANGEROUS_PATTERNS"
    by (simp add: SQL_DANGEROUS_PATTERNS_def)
  have "sqlCell hs r c (str ''; DROP TABLE users'') =
          [\<lparr>column = columnLabel hs c, line = r + 1,
            reason = str ''Contains potentially dangerous SQL pattern ('' @
                     snd (SQL_DANGEROUS_PATTERNS ! 0) @ str ''): '' @ [34] @
                     take 50 (trim (str ''; DROP TABLE users'')) @
                     (if length (trim (str ''; DROP TABLE users'')) > 50 then str ''...'' else []) @
                     [34]\<rparr>]"
    using n l t by (rule sqlCell_first_match) simp
  then show ?thesis
    unfolding trim_drop_table d by (simp add: str_def)
qed

text \<open>
  Claim C6. For a cell that is not empty after trimming, the pattern validator pushes at
  most one failure. When an entry of the catalog matches the trimmed text, the failure
  carries the description of the earliest such entry, the label of the column, the
  1-based line of the row and a preview of the trimmed text; when no entry matches,
  nothing is pushed. What is pushed for a cell of a row that is not skipped is part of the
  result. A cell equal to \<^verbatim>\<open>; DROP TABLE users\<close> is flagged with the description
  \<^verbatim>\<open>Statement terminator\<close>, the first entry of the catalog.
\<close>

theorem first_matching_pattern_wins:
  "length (sqlCell hs r c cell) \<le> 1
   \<and> (trim cell \<noteq> [] \<and> k < length SQL_DANGEROUS_PATTERNS
        \<and> test (fst (SQL_DANGEROUS_PATTERNS ! k)) (trim cell)
        \<and> (\<forall>j<k. \<not> test (fst (SQL_DANGEROUS_PATTERNS ! j)) (trim cell)) \<longrightarrow>
        sqlCell hs r c cell =
          [\<lparr>column = columnLabel hs c, line = r + 1,
            reason = str ''Contains potentially dangerous SQL pattern ('' @
                     snd (SQL_DANGEROUS_PATTERNS ! k) @ str ''): '' @ [34] @
                     take 50 (trim cell) @
                     (if length (trim cell) > 50 then str ''...'' else []) @ [34]\<rparr>])
   \<and> ((\<forall>j<length SQL_DANGEROUS_PATTERNS.
          \<not> test (fst (SQL_DANGEROUS_PATTERNS ! j)) (trim cell)) \<longrightarrow>
        sqlCell hs r c cell = [])
   \<and> (1 \<le> r \<and> r < length data \<and> \<not> emptyRow (data ! r) \<and> c < length (data ! r) \<longrightarrow>
        set (sqlCell hs r c (data ! r ! c)) \<subseteq> set (validateDataRows data hs True))
   \<and> fst (SQL_DANGEROUS_PATTERNS ! 0) = lit '';''
   \<and> sqlCell hs r c (str ''; DROP TABLE users'') =
        [\<lparr>column = columnLabel hs c, line = r + 1,
          reason = str ''Contains potentially dangerous SQL pattern (Statement terminator): '' @
                   [34] @ str ''; DROP TABLE users'' @ [34]\<rparr>]"
  using sqlCell_at_most_one [of hs r c cell] sqlCell_first_match [of cell k hs r c]
    sqlCell_no_match [of cell hs r c] sqlCell_in_result [of r data c hs]
    sqlCell_drop_table [of hs r c]
  by (simp add: SQL_DANGEROUS_PATTERNS_def)

theorem first_matching_pattern_wins_witness:
  "sqlCell [str ''Name''] 1 0 (str '' a--b '') =
     [\<lparr>column = str ''Name'', line = 2,
       reason = str ''Contains potentially dangerous SQL pattern (SQL comment): '' @
                [34] @ str ''a--b'' @ [34]\<rparr>]
   \<and> set (sqlCell [str ''Name''] 1 0 (str '' a--b '')) \<subseteq>
       set (validateDataRows [[str ''Name''], [str '' a--b '']] [str ''Name''] True)
   \<and> sqlCell [str ''Name''] 1 0 (str ''ab'') = []"
proof -
  have t: "trim (str '' a--b '') = str ''a--b''"
    by (simp add: string_eval)
  have m: "test (fst (SQL_DANGEROUS_PATTERNS ! 1)) (str ''a--b'')"
    "\<forall>j<1. \<not> test (fst (SQL_DANGEROUS_PATTERNS ! j)) (str ''a--b'')"
    "snd (SQL_DANGEROUS_PATTERNS ! 1) = str ''SQL comment''"
    "1 < length SQL_DANGEROUS_PATTERNS"
    by (simp_all add: SQL_DANGEROUS_PATTERNS_def str_def rx_eval)
  have one: "sqlCell [str ''Name''] 1 0 (str '' a--b '') =
     [\<lparr>column = str ''Name'', line = 2,
       reason = str ''Contains potentially dangerous SQL pattern (SQL comment): '' @
                [34] @ str ''a--b'' @ [34]\<rparr>]"
    using first_matching_pattern_wins [of "[str ''Name'']" 1 0 "str '' a--b ''" 1 "[]"] m
    by (simp add: t columnLabel_def nth_opt_def) (simp add: str_def)
  have two: "set (sqlCell [str ''Name''] 1 0 (str '' a--b '')) \<subseteq>
       set (validateDataRows [[str ''Name''], [str '' a--b '']] [str ''Name''] True)"
    using first_matching_pattern_wins
      [of "[str ''Name'']" 1 0 "str '' a--b ''" 0 "[[str ''Name''], [str '' a--b '']]"]
    by (simp add: emptyRow_def str_def)
  have t2: "trim (str ''ab'') = str ''ab''"
    by (simp add: string_eval)
  have none: "\<forall>j<length SQL_DANGEROUS_PATTERNS.
          \<not> test (fst (SQL_DANGEROUS_PATTERNS ! j)) (str ''ab'')"
  proof -
    have "list_all (\<lambda>e. \<not> test (fst e) (str ''ab'')) SQL_DANGEROUS_PATTERNS"
      by (simp add: SQL_DANGEROUS_PATTERNS_def str_def rx_eval)
    then show ?thesis by (simp only: list_all_length)
  qed
  have three: "sqlCell [str ''Name''] 1 0 (str ''ab'') = []"
    using first_matching_pattern_wins [of "[str ''Name'']" 1 0 "str ''ab''" 0 "[]"] none
    by (simp add: t2)
  show ?thesis using one two three by simp
qed

section \<open>Provenance of the failures\<close>

lemma trim_all_space: "\<forall>cu \<in> set cell. is_space cu \<Longrightarrow> trim cell = []"
proof -
  assume "\<forall>cu \<in> set cell. is_space cu"
  then have d: "dropWhile is_space cell = []"
    by (induction cell) auto
  show ?thesis unfolding trim_def d by simp
qed

lemma ascii_valid: "allowed \<noteq> [] \<Longrightarrow> cu < 128 \<Longrightarrow> isValid allowed cu"
proof -
  assume a: "allowed \<noteq> []" and c: "cu < 128"
  then obtain enc rest where "allowed = enc # rest" by (cases allowed) auto
  moreover have "isValidForEncoding cu enc"
    using c by (cases enc) (simp_all add: isValidForEncoding_def)
  ultimately show ?thesis by (simp add: isValid_def)
qed

lemma sqlCell_blank: "trim cell = [] \<Longrightarrow> sqlCell hs r c cell = []"
  by (simp add: sqlCell_def)

lemma sqlCell_line: "f \<in> set (sqlCell hs r c cell) \<Longrightarrow> line f = r + 1 \<and> trim cell \<noteq> []"
  by (auto simp: sqlCell_def Let_def split: if_splits option.splits prod.splits)

lemma encodingCell_Nil: "encodingCell hs allowed r c [] = []"
  by (simp add: encodingCell_def)

lemma encodingCell_line:
  assumes "f \<in> set (encodingCell hs allowed r c cell)"
  shows "line f = r + 1 \<and> cell \<noteq> [] \<and> (\<exists>cu \<in> set cell. \<not> isValid allowed cu)"
proof -
  from assms have ne: "cell \<noteq> []"
    by (auto simp: encodingCell_def split: if_splits)
  from assms ne obtain i where
    i: "find (\<lambda>charIndex. \<not> isValid allowed (cell ! charIndex)) [0..<length cell] = Some i"
    by (cases "find (\<lambda>charIndex. \<not> isValid allowed (cell ! charIndex)) [0..<length cell]")
       (auto simp: encodingCell_def)
  from assms ne i have l: "line f = r + 1"
    by (simp add: encodingCell_def Let_def)
  from i have "i < length cell" "\<not> isValid allowed (cell ! i)"
    by (auto simp: find_Some_iff)
  then have "\<exists>cu \<in> set cell. \<not> isValid allowed cu"
    using nth_mem by blast
  with ne l show ?thesis by simp
qed

lemma validateDataRows_origin:
  assumes "f \<in> set (validateDataRows data hs en)"
  shows "\<exists>r c. 1 \<le> r \<and> r < length data \<and> \<not> emptyRow (data ! r) \<and> c < length (data ! r)
           \<and> trim (data ! r ! c) \<noteq> [] \<and> line f = r + 1
           \<and> f \<in> set (sqlCell hs r c (data ! r ! c))"
proof -
  from assms have en by (auto simp: validateDataRows_def split: if_splits)
  with assms have "f \<in> set (validateDataRows data hs True)" by simp
  then obtain r c where "1 \<le> r" "r < length data" "\<not> emptyRow (data ! r)" "c < length (data ! r)"
    "f \<in> set (sqlCell hs r c (data ! r ! c))"
    unfolding validateDataRows_set by (auto split: if_splits)
  then show ?thesis using sqlCell_line by blast
qed

lemma validateEncoding_origin:
  assumes "f \<in> set (validateEncoding data hs allowed)"
  shows "\<exists>r c. 1 \<le> r \<and> r < length data \<and> \<not> emptyRow (data ! r) \<and> c < length (data ! r)
           \<and> data ! r ! c \<noteq> [] \<and> (\<exists>cu \<in> set (data ! r ! c). \<not> isValid allowed cu)
           \<and> line f = r + 1 \<and> f \<in> set (encodingCell hs allowed r c (data ! r ! c))"
proof -
  from assms have ne: "allowed \<noteq> []" by (auto simp: validateEncoding_def split: if_splits)
  from assms obtain r c where "1 \<le> r" "r < length data" "\<not> emptyRow (data ! r)"
    "c < length (data ! r)" "f \<in> set (encodingCell hs allowed r c (data ! r ! c))"
    unfolding validateEncoding_set [OF ne] by (auto split: if_splits)
  then show ?thesis using encodingCell_line by blast
qed

lemma ex_nbsp:
  "validateEncoding [[str ''Name''], [[160]]] [str ''Name''] [UTF8] =
     [\<lparr>column = str ''Name'', line = 2,
       reason = str ''Contains character '' @ [34, 160, 34] @
                str '' (0x00A0) not allowed in specified encodings: UTF8''\<rparr>]"
  by (simp add: validateEncoding_def emptyRow_def encodingCell_def isValid_def
        isValidForEncoding_def columnLabel_def string_eval replicate_eval)

text \<open>
  Claim C5, as stated, fails: a cell that holds only a no-break space (0xA0) is empty
  after trimming, and the encoding validator, which does not trim, flags it under UTF8.
\<close>

theorem whitespace_cell_encoding_counterexample:
  "trim [160] = [] \<and>
   validateEncoding [[str ''Name''], [[160]]] [str ''Name''] [UTF8] =
     [\<lparr>column = str ''Name'', line = 2,
       reason = str ''Contains character '' @ [34, 160, 34] @
                str '' (0x00A0) not allowed in specified encodings: UTF8''\<rparr>]"
  using ex_nbsp by (simp add: trim_def is_space_def)

text \<open>
  Claim C5, amended. Every pattern failure comes from a cell that is not empty after
  trimming, in a data row that has a cell other than the empty string; every encoding
  failure comes from a cell that is not the empty string and holds a character outside
  every allowed range, in such a row. So rows that have no cell or only empty cells, and
  cells that are empty after trimming (pattern validator) or empty (encoding validator),
  produce no failure, whatever the policy. A cell of white space only yields no pattern
  failure, and no encoding failure when its characters are ASCII.
\<close>

theorem empty_rows_and_cells_skipped:
  "(\<forall>f \<in> set (validateDataRows data hs en).
      \<exists>r c. 1 \<le> r \<and> r < length data \<and> \<not> emptyRow (data ! r) \<and> c < length (data ! r)
            \<and> trim (data ! r ! c) \<noteq> [] \<and> line f = r + 1
            \<and> f \<in> set (sqlCell hs r c (data ! r ! c)))
   \<and> (\<forall>f \<in> set (validateEncoding data hs allowed).
      \<exists>r c. 1 \<le> r \<and> r < length data \<and> \<not> emptyRow (data ! r) \<and> c < length (data ! r)
            \<and> data ! r ! c \<noteq> [] \<and> (\<exists>cu \<in> set (data ! r ! c). \<not> isValid allowed cu)
            \<and> line f = r + 1 \<and> f \<in> set (encodingCell hs allowed r c (data ! r ! c)))
   \<and> (emptyRow row \<longleftrightarrow> row = [] \<or> (\<forall>x \<in> set row. x = []))
   \<and> ((\<forall>cu \<in> set cell. is_space cu) \<longrightarrow> sqlCell hs r c cell = [])
   \<and> (allowed \<noteq> [] \<and> (\<forall>cu \<in> set cell. is_space cu \<and> cu < 128) \<longrightarrow>
        encodingCell hs allowed r c cell = [])"
proof -
  have "encodingCell hs allowed r c cell = []"
    if "allowed \<noteq> []" "\<forall>cu \<in> set cell. is_space cu \<and> cu < 128"
    using that by (intro encodingCell_valid) (auto intro: ascii_valid)
  moreover have "sqlCell hs r c cell = []" if "\<forall>cu \<in> set cell. is_space cu"
    using that by (intro sqlCell_blank trim_all_space)
  moreover have "emptyRow row \<longleftrightarrow> row = [] \<or> (\<forall>x \<in> set row. x = [])"
    by (simp add: emptyRow_def list_all_iff)
  ultimately show ?thesis
    using validateDataRows_origin [of _ data hs en] validateEncoding_origin [of _ data hs allowed]
    by blast
qed

theorem empty_rows_and_cells_skipped_witness:
  "(\<exists>r c. 1 \<le> r \<and> r < length exTable \<and> \<not> emptyRow (exTable ! r) \<and> c < length (exTable ! r)
          \<and> trim (exTable ! r ! c) \<noteq> [] \<and> (2::nat) = r + 1)
   \<and> (\<exists>r c. 1 \<le> r \<and> r < length exTable \<and> \<not> emptyRow (exTable ! r) \<and> c < length (exTable ! r)
          \<and> exTable ! r ! c \<noteq> [] \<and> (\<exists>cu \<in> set (exTable ! r ! c). \<not> isValid [UTF8] cu)
          \<and> (2::nat) = r + 1)
   \<and> emptyRow [[], []]
   \<and> sqlCell (exTable ! 0) 1 0 [32, 9, 160] = []
   \<and> encodingCell (exTable ! 0) [UTF8] 1 0 [32, 9] = []"
proof -
  let ?f = "\<lparr>column = str ''Name'', line = 2,
     reason = str ''Contains potentially dangerous SQL pattern (Statement terminator): '' @
              [34, 233, 59, 34]\<rparr>"
  let ?g = "\<lparr>column = str ''Name'', line = 2,
     reason = str ''Contains character '' @ [34, 233, 34] @
              str '' (0x00E9) not allowed in specified encodings: UTF8''\<rparr>"
  note t = empty_rows_and_cells_skipped [of exTable "exTable ! 0" True "[UTF8]"]
  have f: "?f \<in> set (validateDataRows exTable (exTable ! 0) True)"
    by (simp add: ex_sql)
  have g: "?g \<in> set (validateEncoding exTable (exTable ! 0) [UTF8])"
    by (simp add: ex_enc)
  have 1: "\<exists>r c. 1 \<le> r \<and> r < length exTable \<and> \<not> emptyRow (exTable ! r) \<and> c < length (exTable ! r)
          \<and> trim (exTable ! r ! c) \<noteq> [] \<and> (2::nat) = r + 1"
    using t [of "[[], []]" "[32, 9, 160]" 1 0] f by fastforce
  have 2: "\<exists>r c. 1 \<le> r \<and> r < length exTable \<and> \<not> emptyRow (exTable ! r) \<and> c < length (exTable ! r)
          \<and> exTable ! r ! c \<noteq> [] \<and> (\<exists>cu \<in> set (exTable ! r ! c). \<not> isValid [UTF8] cu)
          \<and> (2::nat) = r + 1"
    using t [of "[[], []]" "[32, 9, 160]" 1 0] g by fastforce
  have 3: "emptyRow [[], []]"
    using t [of "[[], []]" "[32, 9, 160]" 1 0] by simp
  have 4: "sqlCell (exTable ! 0) 1 0 [32, 9, 160] = []"
    using t [of "[[], []]" "[32, 9, 160]" 1 0] by (simp add: is_space_def)
  have 5: "encodingCell (exTable ! 0) [UTF8] 1 0 [32, 9] = []"
    using t [of "[[], []]" "[32, 9]" 1 0] by (simp add: is_space_def)
  show ?thesis using 1 2 3 4 5 by blast
qed

section \<open>Column schemas\<close>

lemma entry_configured:
  assumes "nth_opt (colIndexToConstraints lc hs config) c = Some (Some (name, cons))"
  shows "c < length hs \<and> name = hs ! c"
proof -
  have len: "length (colIndexToConstraints lc hs config) = length hs"
    by (simp add: colIndexToConstraints_def Let_def)
  from assms have c: "c < length hs"
    by (simp add: nth_opt_def len split: if_splits)
  from assms c have e: "colIndexToConstraints lc hs config ! c = Some (name, cons)"
    by (simp add: nth_opt_def len)
  from e c have "name = hs ! c"
    by (auto simp: colIndexToConstraints_def Let_def split: option.splits)
  with c show ?thesis by simp
qed

lemma validateColumnSchemas_set:
  "ownProps (getFilteredColumnSchemas lc config) \<noteq> [] \<Longrightarrow>
   set (validateColumnSchemas lc data hs config) =
     (\<Union>r \<in> {1..<length data}.
        if length (data ! r) = 0 then {}
        else (\<Union>c \<in> {0..<length (data ! r)}.
                set (schemaCell lc (colIndexToConstraints lc hs config) r c (data ! r ! c))))"
  by (auto simp: validateColumnSchemas_def Let_def split: if_splits)

lemma validateColumnSchemas_gate:
  "ownProps (getFilteredColumnSchemas lc config) = [] \<Longrightarrow>
     validateColumnSchemas lc data hs config = []"
  by (simp add: validateColumnSchemas_def)

lemma fold_keeps_proto:
  assumes "\<And>x acc. protoObj (f x acc) = protoObj acc"
  shows "protoObj (fold f xs acc) = protoObj acc"
  using assms by (induction xs arbitrary: acc) simp_all

lemma canonical_in_expected:
  assumes "nk \<in> set (map n expected)"
  shows "orDefault (find (\<lambda>h. n h = nk) expected) key \<in> set expected"
proof (cases "find (\<lambda>h. n h = nk) expected")
  case None
  with assms show ?thesis by (auto simp: find_None_iff)
next
  case (Some h)
  then have "h \<in> set expected" by (auto simp: find_Some_iff)
  with Some show ?thesis by (simp add: orDefault_def)
qed

lemma no_proto_header:
  assumes "str ''__proto__'' \<notin> set (expectedHeaders config)"
  shows "protoObj (getFilteredColumnSchemas lc config) = None"
proof (cases "columnSchemas config")
  case None
  then show ?thesis by (simp add: getFilteredColumnSchemas_def emptyObject_def)
next
  case (Some schemas)
  let ?n = "normalize_hdr lc (orDefault (caseInsensitive config) False)"
  let ?step = "\<lambda>(key, constraints) filtered.
      let normalizedKey = ?n key
      in if normalizedKey \<in> set (map ?n (expectedHeaders config)) then
           (let canonicalKey = orDefault (find (\<lambda>h. ?n h = normalizedKey)
                                               (expectedHeaders config)) key
            in assignProperty canonicalKey constraints filtered)
         else filtered"
  have step: "protoObj (?step x acc) = protoObj acc" for x acc
  proof (cases x)
    case (Pair key constraints)
    show ?thesis
    proof (cases "?n key \<in> set (map ?n (expectedHeaders config))")
      case True
      then have "orDefault (find (\<lambda>h. ?n h = ?n key) (expectedHeaders config)) key
                   \<in> set (expectedHeaders config)"
        by (rule canonical_in_expected)
      with assms have "orDefault (find (\<lambda>h. ?n h = ?n key) (expectedHeaders config)) key
                   \<noteq> str ''__proto__''"
        by auto
      with Pair True show ?thesis by (simp add: assignProperty_def Let_def)
    next
      case False
      with Pair show ?thesis by (simp add: Let_def)
    qed
  qed
  have "protoObj (fold ?step schemas emptyObject) = protoObj emptyObject"
    using step by (rule fold_keeps_proto)
  with Some show ?thesis
    by (simp add: getFilteredColumnSchemas_def Let_def emptyObject_def)
qed

lemma own_key_of_entry:
  assumes "str ''__proto__'' \<notin> set (expectedHeaders config)"
    and e: "nth_opt (colIndexToConstraints lc hs config) c = Some (Some (name, cons))"
    and n: "allowNull cons = Some False"
  shows "ownProps (getFilteredColumnSchemas lc config) \<noteq> []"
proof -
  have len: "length (colIndexToConstraints lc hs config) = length hs"
    by (simp add: colIndexToConstraints_def Let_def)
  from e have c: "c < length hs"
    by (simp add: nth_opt_def len split: if_splits)
  from e c have "colIndexToConstraints lc hs config ! c = Some (name, cons)"
    by (simp add: nth_opt_def len)
  with c obtain key where r: "readProperty (getFilteredColumnSchemas lc config) key = Some cons"
    by (auto simp: colIndexToConstraints_def Let_def split: option.splits)
  have p: "protoObj (getFilteredColumnSchemas lc config) = None"
    using assms(1) by (rule no_proto_header)
  show ?thesis
  proof
    assume "ownProps (getFilteredColumnSchemas lc config) = []"
    with r p have "cons = noConstraints"
      by (auto simp: readProperty_def split: if_splits)
    with n show False by (simp add: noConstraints_def)
  qed
qed

lemma validateCellForSchema_blank:
  assumes "allowNull cons = Some False" and "trim cell = []"
  shows "validateCellForSchema lc cell cons name ln =
           Some \<lparr>column = name, line = ln,
                 reason = str ''Column '' @ [34] @ name @ [34] @
                          str '' does not allow null or empty values''\<rparr>"
  using assms by (simp add: validateCellForSchema_def Let_def orDefault_def)

lemma schemaCell_elem:
  assumes "f \<in> set (schemaCell lc es r c cell)"
  shows "\<exists>name cons. nth_opt es c = Some (Some (name, cons)) \<and>
           validateCellForSchema lc cell cons name (r + 1) = Some f"
proof (cases "nth_opt es c")
  case None
  with assms show ?thesis by (simp add: schemaCell_def)
next
  case (Some e)
  show ?thesis
  proof (cases e)
    case None
    with Some assms show ?thesis by (simp add: schemaCell_def)
  next
    case inner: (Some p)
    obtain name cons where p: "p = (name, cons)" by (cases p)
    show ?thesis
    proof (cases "validateCellForSchema lc cell cons name (r + 1)")
      case None
      with Some inner p assms show ?thesis by (simp add: schemaCell_def)
    next
      case v: (Some g)
      with Some inner p assms have "f = g" by (simp add: schemaCell_def)
      with Some inner p v show ?thesis by simp
    qed
  qed
qed

lemma validateColumnSchemas_origin:
  assumes "f \<in> set (validateColumnSchemas lc data hs config)"
  shows "\<exists>r c name cons. 1 \<le> r \<and> r < length data \<and> c < length (data ! r)
           \<and> nth_opt (colIndexToConstraints lc hs config) c = Some (Some (name, cons))
           \<and> validateCellForSchema lc (data ! r ! c) cons name (r + 1) = Some f"
proof -
  from assms have ne: "ownProps (getFilteredColumnSchemas lc config) \<noteq> []"
    by (auto simp: validateColumnSchemas_def split: if_splits)
  from assms obtain r c where rc: "1 \<le> r" "r < length data" "c < length (data ! r)"
    and f: "f \<in> set (schemaCell lc (colIndexToConstraints lc hs config) r c (data ! r ! c))"
    unfolding validateColumnSchemas_set [OF ne] by (auto split: if_splits)
  from f have "\<exists>name cons.
    nth_opt (colIndexToConstraints lc hs config) c = Some (Some (name, cons)) \<and>
    validateCellForSchema lc (data ! r ! c) cons name (r + 1) = Some f"
    by (rule schemaCell_elem)
  with rc show ?thesis by blast
qed

lemma present_blank_cell_in_result:
  assumes "1 \<le> r" "r < length data" "c < length (data ! r)"
    and ne: "ownProps (getFilteredColumnSchemas lc config) \<noteq> []"
    and e: "nth_opt (colIndexToConstraints lc hs config) c = Some (Some (name, cons))"
    and n: "allowNull cons = Some False" and t: "trim (data ! r ! c) = []"
  shows "\<lparr>column = name, line = r + 1,
          reason = str ''Column '' @ [34] @ name @ [34] @
                   str '' does not allow null or empty values''\<rparr>
           \<in> set (validateColumnSchemas lc data hs config)"
proof -
  have "schemaCell lc (colIndexToConstraints lc hs config) r c (data ! r ! c) =
          [\<lparr>column = name, line = r + 1,
            reason = str ''Column '' @ [34] @ name @ [34] @
                     str '' does not allow null or empty values''\<rparr>]"
    using e validateCellForSchema_blank [OF n t] by (simp add: schemaCell_def)
  then show ?thesis
    unfolding validateColumnSchemas_set [OF ne] using assms(1-3) by force
qed

lemma ex_filtered:
  "getFilteredColumnSchemas lowerASCII (headers exConfig) =
     \<lparr>ownProps = [(str ''Age'', \<lparr>ctype = Some TNumber, allowNull = Some False\<rparr>)],
      protoObj = None\<rparr>"
  by (simp add: exConfig_def schema_eval string_eval)

lemma ex_entries:
  "colIndexToConstraints lowerASCII [str ''Name'', str ''Age''] (headers exConfig) =
     [None, Some (str ''Age'', \<lparr>ctype = Some TNumber, allowNull = Some False\<rparr>)]"
  by (simp add: exConfig_def schema_eval string_eval)

lemma ex_ragged:
  "validateColumnSchemas lowerASCII exRaggedTable (exRaggedTable ! 0) (headers exConfig) = []"
  by (simp add: exRaggedTable_def validateColumnSchemas_def schemaCell_def nth_opt_def
        ex_entries ex_filtered)

text \<open>
  The key \<^verbatim>\<open>__proto__\<close>. When it is the only key of the schema object, the filtered
  object has no own property and the validator returns at once, although the column has a
  blank cell. When another key is kept, the validator runs, and the constraints of the
  column \<^verbatim>\<open>__proto__\<close> are read back through the getter.
\<close>

lemma ex_proto_only_filtered:
  "getFilteredColumnSchemas lowerASCII exProtoOnly =
     \<lparr>ownProps = [], protoObj = Some \<lparr>ctype = None, allowNull = Some False\<rparr>\<rparr>"
  by (simp add: exProtoOnly_def schema_eval string_eval)

lemma ex_proto_only:
  "validateColumnSchemas lowerASCII [[str ''__proto__''], [str ''x''], [[]]]
     [str ''__proto__''] exProtoOnly = []"
  by (rule validateColumnSchemas_gate) (simp add: ex_proto_only_filtered)

lemma ex_proto_and_age:
  "validateColumnSchemas lowerASCII [[str ''__proto__'', str ''Age''], [[], str ''1'']]
     [str ''__proto__'', str ''Age''] exProtoAndAge =
     [\<lparr>column = str ''__proto__'', line = 2,
       reason = str ''Column '' @ [34] @ str ''__proto__'' @ [34] @
                str '' does not allow null or empty values''\<rparr>]"
  by (simp add: exProtoAndAge_def validateColumnSchemas_def schema_eval schemaCell_def
        validateCellForSchema_def stripSurroundingQuotes_def NUMBER_PATTERN_def
        string_eval rx_eval)

text \<open>
  Claim C4, as stated, fails: Age is constrained with \<^verbatim>\<open>allowNull: false\<close>, the data
  row holds the cell of Name only, and the validator reports nothing. The loop over the
  columns runs over the cells of the row, so an absent cell is never examined.
\<close>

theorem absent_cell_counterexample:
  "length (exRaggedTable ! 1) < length (exRaggedTable ! 0)
   \<and> colIndexToConstraints lowerASCII (exRaggedTable ! 0) (headers exConfig) ! 1 =
       Some (str ''Age'', \<lparr>ctype = Some TNumber, allowNull = Some False\<rparr>)
   \<and> validateColumnSchemas lowerASCII exRaggedTable (exRaggedTable ! 0) (headers exConfig) = []"
  using ex_ragged ex_entries by (simp add: exRaggedTable_def)

text \<open>
  Claim C4, amended. In a table with rows of any lengths, once the validator runs (the
  filtered schema object has an own key), a cell that is present in its row, stands in a
  column constrained with \<^verbatim>\<open>allowNull: false\<close> and is empty after trimming makes the
  validator report a failure for that column, at the 1-based line of the row, with the
  reason \<^verbatim>\<open>Column "<name>" does not allow null or empty values\<close>. Every failure of the
  validator comes from a cell that is present in its row: a cell that is absent because
  the row is shorter than the header row produces none. The validator runs whenever a
  column is so constrained and no expected header is \<^verbatim>\<open>__proto__\<close>.
\<close>

theorem present_blank_cell_rejected:
  "(1 \<le> r \<and> r < length data \<and> c < length (data ! r)
      \<and> ownProps (getFilteredColumnSchemas lc config) \<noteq> []
      \<and> nth_opt (colIndexToConstraints lc hs config) c = Some (Some (name, cons))
      \<and> allowNull cons = Some False \<and> trim (data ! r ! c) = [] \<longrightarrow>
      name = hs ! c \<and>
      \<lparr>column = name, line = r + 1,
        reason = str ''Column '' @ [34] @ name @ [34] @
                 str '' does not allow null or empty values''\<rparr>
        \<in> set (validateColumnSchemas lc data hs config))
   \<and> (\<forall>f \<in> set (validateColumnSchemas lc data hs config).
        \<exists>r c name cons. 1 \<le> r \<and> r < length data \<and> c < length (data ! r)
          \<and> ownProps (getFilteredColumnSchemas lc config) \<noteq> []
          \<and> nth_opt (colIndexToConstraints lc hs config) c = Some (Some (name, cons))
          \<and> validateCellForSchema lc (data ! r ! c) cons name (r + 1) = Some f)
   \<and> (str ''__proto__'' \<notin> set (expectedHeaders config)
      \<and> nth_opt (colIndexToConstraints lc hs config) c = Some (Some (name, cons))
      \<and> allowNull cons = Some False \<longrightarrow>
      ownProps (getFilteredColumnSchemas lc config) \<noteq> [])"
proof -
  have gate: "ownProps (getFilteredColumnSchemas lc config) \<noteq> []"
    if "f \<in> set (validateColumnSchemas lc data hs config)" for f
    using that validateColumnSchemas_gate [of lc config data hs] by auto
  show ?thesis
    using present_blank_cell_in_result [of r data c lc config hs name cons]
      entry_configured [of lc hs config c name cons]
      validateColumnSchemas_origin [of _ lc data hs config] gate
      own_key_of_entry [of config lc hs c name cons]
    by blast
qed

theorem present_blank_cell_rejected_witness:
  "\<lparr>column = str ''Age'', line = 2,
     reason = str ''Column '' @ [34] @ str ''Age'' @ [34] @
              str '' does not allow null or empty values''\<rparr>
     \<in> set (validateColumnSchemas lowerASCII exBlankTable (exBlankTable ! 0) (headers exConfig))
   \<and> ownProps (getFilteredColumnSchemas lowerASCII (headers exConfig)) \<noteq> []
   \<and> (\<exists>r c. 1 \<le> r \<and> r < length exBlankTable \<and> c < length (exBlankTable ! r))"
proof -
  have e: "nth_opt (colIndexToConstraints lowerASCII (exBlankTable ! 0) (headers exConfig)) 1 =
             Some (Some (str ''Age'', \<lparr>ctype = Some TNumber, allowNull = Some False\<rparr>))"
    by (simp add: exBlankTable_def ex_entries nth_opt_def)
  have t: "trim (exBlankTable ! 1 ! 1) = []"
    by (simp add: exBlankTable_def string_eval)
  have l: "(1::nat) \<le> 1" "1 < length exBlankTable" "1 < length (exBlankTable ! 1)"
    by (simp_all add: exBlankTable_def)
  note th = present_blank_cell_rejected [of 1 exBlankTable 1 lowerASCII "headers exConfig"
      "exBlankTable ! 0" "str ''Age''" "\<lparr>ctype = Some TNumber, allowNull = Some False\<rparr>"]
  have np: "str ''__proto__'' \<notin> set (expectedHeaders (headers exConfig))"
    by (simp add: exConfig_def str_def)
  have g: "ownProps (getFilteredColumnSchemas lowerASCII (headers exConfig)) \<noteq> []"
    using th e np by simp
  have m: "\<lparr>column = str ''Age'', line = 2,
     reason = str ''Column '' @ [34] @ str ''Age'' @ [34] @
              str '' does not allow null or empty values''\<rparr>
     \<in> set (validateColumnSchemas lowerASCII exBlankTable (exBlankTable ! 0) (headers exConfig))"
    using th e g t l by (simp add: exBlankTable_def numeral_2_eq_2)
  then have "\<exists>r c. 1 \<le> r \<and> r < length exBlankTable \<and> c < length (exBlankTable ! r)"
    using th by blast
  with m g show ?thesis by simp
qed

section \<open>The header row is not data\<close>

lemma rows_loop_row0:
  "concat (map (\<lambda>i. G i ((h # rows) ! i)) [1..<length (h # rows)]) =
   concat (map (\<lambda>i. G i ((h' # rows) ! i)) [1..<length (h' # rows)])"
proof -
  have "map (\<lambda>i. G i ((h # rows) ! i)) [1..<length (h # rows)] =
        map (\<lambda>i. G i ((h' # rows) ! i)) [1..<length (h' # rows)]"
  proof (rule map_cong)
    show "[1..<length (h # rows)] = [1..<length (h' # rows)]" by simp
  next
    fix x assume "x \<in> set [1..<length (h' # rows)]"
    then have "x \<noteq> 0" by (simp only: set_upt atLeastLessThan_iff) arith
    then show "G x ((h # rows) ! x) = G x ((h' # rows) ! x)" by (simp add: nth_Cons')
  qed
  then show ?thesis by (rule arg_cong)
qed

lemma validateDataRows_row0:
  "validateDataRows (h # rows) hs en = validateDataRows (h' # rows) hs en"
  unfolding validateDataRows_def Let_def
  by (simp only: rows_loop_row0 [of "\<lambda>rowIndex row. if emptyRow row then []
        else concat (map (\<lambda>colIndex. sqlCell hs rowIndex colIndex (row ! colIndex))
                         [0..<length row])" h rows h'])

lemma validateEncoding_row0:
  "validateEncoding (h # rows) hs allowed = validateEncoding (h' # rows) hs allowed"
  unfolding validateEncoding_def Let_def
  by (simp only: rows_loop_row0 [of "\<lambda>rowIndex row. if emptyRow row then []
        else concat (map (\<lambda>colIndex. encodingCell hs allowed rowIndex colIndex (row ! colIndex))
                         [0..<length row])" h rows h'])

lemma validateColumnSchemas_row0:
  "validateColumnSchemas lc (h # rows) hs hc = validateColumnSchemas lc (h' # rows) hs hc"
  unfolding validateColumnSchemas_def Let_def
  by (simp only: rows_loop_row0 [of "\<lambda>rowIndex row. if length row = 0 then []
        else concat (map (\<lambda>colIndex. schemaCell lc (colIndexToConstraints lc hs hc)
                                         rowIndex colIndex (row ! colIndex))
                         [0..<length row])" h rows h'])

lemma aggregate_dataRowFailures:
  "aggregate lc (h # rows) config = dataRowFailures lc h rows config"
  unfolding aggregate_def dataRowFailures_def
  using validateDataRows_row0 [of h rows h _ "[]"] validateEncoding_row0 [of h rows h _ "[]"]
    validateColumnSchemas_row0 [of lc h rows h _ "[]"]
  by (simp split: option.splits)

lemma validateCellForSchema_line:
  "validateCellForSchema lc cell cons name ln = Some f \<Longrightarrow> line f = ln"
  by (auto simp: validateCellForSchema_def Let_def split: if_splits ColumnType.splits)

lemma failure_lines:
  assumes "f \<in> set (validateDataRows data hs en) \<union> set (validateColumnSchemas lc data hs hc)
              \<union> set (validateEncoding data hs allowed)"
  shows "2 \<le> line f"
proof -
  consider "f \<in> set (validateDataRows data hs en)"
    | "f \<in> set (validateColumnSchemas lc data hs hc)"
    | "f \<in> set (validateEncoding data hs allowed)"
    using assms by blast
  then show ?thesis
  proof cases
    case 1
    then show ?thesis using validateDataRows_origin [of f data hs en] by auto
  next
    case 2
    then show ?thesis
      using validateColumnSchemas_origin [of f lc data hs hc] validateCellForSchema_line
      by fastforce
  next
    case 3
    then show ?thesis using validateEncoding_origin [of f data hs allowed] by auto
  qed
qed

lemma header_only_success:
  assumes "validateHeaders lc h (headers config) = None"
  shows "validateFile lc (Inr [h]) config = Success (str ''File validation passed successfully'')"
proof -
  have "aggregate lc [h] config = []"
    by (simp add: aggregate_def validateDataRows_def validateColumnSchemas_def
          validateEncoding_def split: option.splits)
  then show ?thesis
    using validateFile_after_headers [of "[h]" lc config] assms by simp
qed

lemma clean_rows_success:
  assumes "validateHeaders lc h (headers config) = None"
    and "dataRowFailures lc h rows config = []"
  shows "validateFile lc (Inr (h # rows)) config =
           Success (str ''File validation passed successfully'')"
  using validateFile_after_headers [of "h # rows" lc config] assms
  by (simp add: aggregate_dataRowFailures)

lemma trim_dirty: "trim exDirtyHeader = exDirtyHeader"
  by (simp add: exDirtyHeader_def string_eval)

lemma dirty_not_proto: "exDirtyHeader \<noteq> str ''__proto__''"
  by (simp add: exDirtyHeader_def str_def)

lemma ex_dirty_headers:
  "validateHeaders lowerASCII [exDirtyHeader] (headers exDirtyConfig) = None"
  by (rule validateHeaders_exact) (simp add: exDirtyConfig_def)

lemma ex_dirty_rows:
  "dataRowFailures lowerASCII [exDirtyHeader] [[str ''1'']] exDirtyConfig = []"
proof -
  have sql: "validateDataRows [[], [str ''1'']] [exDirtyHeader] True = []"
    by (simp add: validateDataRows_def emptyRow_def sqlCell_def SQL_DANGEROUS_PATTERNS_def
          string_eval rx_eval)
  have entries: "colIndexToConstraints lowerASCII [exDirtyHeader] (headers exDirtyConfig) =
          [Some (exDirtyHeader, \<lparr>ctype = Some TNumber, allowNull = Some False\<rparr>)]"
    by (simp add: exDirtyConfig_def schema_eval orDefault_def normalize_hdr_def trim_dirty
          dirty_not_proto Let_def)
  have filtered: "ownProps (getFilteredColumnSchemas lowerASCII (headers exDirtyConfig)) \<noteq> []"
    by (simp add: exDirtyConfig_def schema_eval orDefault_def normalize_hdr_def trim_dirty
          dirty_not_proto Let_def)
  have cell: "validateCellForSchema lowerASCII (str ''1'')
                \<lparr>ctype = Some TNumber, allowNull = Some False\<rparr> exDirtyHeader ln = None" for ln
    by (simp add: validateCellForSchema_def stripSurroundingQuotes_def NUMBER_PATTERN_def
          string_eval rx_eval)
  have schema: "validateColumnSchemas lowerASCII [[], [str ''1'']] [exDirtyHeader]
                  (headers exDirtyConfig) = []"
    using filtered cell by (simp add: validateColumnSchemas_def entries schemaCell_def nth_opt_def)
  have enc: "validateEncoding [[], [str ''1'']] [exDirtyHeader] [UTF8] = []"
    by (simp add: validateEncoding_def emptyRow_def encodingCell_def isValid_def
          isValidForEncoding_def str_def)
  have cfg: "validateSqlInjection exDirtyConfig = Some True"
    "encoding exDirtyConfig = Some \<lparr>allowedEncodings = Some [UTF8]\<rparr>"
    by (simp_all add: exDirtyConfig_def)
  show ?thesis
    by (simp add: dataRowFailures_def sql schema enc cfg orDefault_def)
qed

lemma ex_dirty_header_properties:
  "test (lit '';'') exDirtyHeader \<and> \<not> matches NUMBER_PATTERN exDirtyHeader
   \<and> \<not> isValid [UTF8] (exDirtyHeader ! 0)"
  by (simp add: exDirtyHeader_def str_def rx_eval NUMBER_PATTERN_def isValid_def
        isValidForEncoding_def)

text \<open>
  Claim C10. The pattern, schema and encoding validators never read row 0: their results
  do not change when the header row of the table is replaced, and every failure they
  report has a line of at least 2. Hence, once the header row has passed header
  validation, the failures of the orchestrator are those of the data rows alone; a table
  with clean data rows, and a table with no data row, yield a success outcome whatever
  the header cells hold. In the example the header cell holds a statement terminator, is
  not a number in a number column and has a character outside the allowed encoding, and
  the outcome is a success.
\<close>

theorem header_row_not_examined:
  "validateDataRows (h # rows) hs en = validateDataRows (h' # rows) hs en
   \<and> validateColumnSchemas lc (h # rows) hs hc = validateColumnSchemas lc (h' # rows) hs hc
   \<and> validateEncoding (h # rows) hs allowed = validateEncoding (h' # rows) hs allowed
   \<and> (\<forall>f \<in> set (validateDataRows data hs en) \<union> set (validateColumnSchemas lc data hs hc)
              \<union> set (validateEncoding data hs allowed). 2 \<le> line f)
   \<and> aggregate lc (h # rows) config = dataRowFailures lc h rows config
   \<and> (validateHeaders lc h (headers config) = None \<and> dataRowFailures lc h rows config = [] \<longrightarrow>
        validateFile lc (Inr (h # rows)) config =
          Success (str ''File validation passed successfully''))
   \<and> (validateHeaders lc h (headers config) = None \<longrightarrow>
        validateFile lc (Inr [h]) config = Success (str ''File validation passed successfully''))
   \<and> test (lit '';'') exDirtyHeader \<and> \<not> matches NUMBER_PATTERN exDirtyHeader
   \<and> \<not> isValid [UTF8] (exDirtyHeader ! 0)
   \<and> validateFile lowerASCII (Inr exDirtyHeaderTable) exDirtyConfig =
        Success (str ''File validation passed successfully'')"
proof -
  have ex: "validateFile lowerASCII (Inr exDirtyHeaderTable) exDirtyConfig =
        Success (str ''File validation passed successfully'')"
    unfolding exDirtyHeaderTable_def
    by (rule clean_rows_success) (simp_all add: ex_dirty_headers ex_dirty_rows)
  show ?thesis
    using validateDataRows_row0 [of h rows hs en h'] validateColumnSchemas_row0 [of lc h rows hs hc h']
      validateEncoding_row0 [of h rows hs allowed h']
      failure_lines [of _ data hs en lc hc allowed]
      aggregate_dataRowFailures [of lc h rows config]
      clean_rows_success [of lc h config rows] header_only_success [of lc h config]
      ex_dirty_header_properties ex
    by blast
qed

theorem header_row_not_examined_witness:
  "validateDataRows ([str ''x;''] # [[str ''; DROP TABLE users'']]) [str ''N''] True =
     validateDataRows ([str ''N''] # [[str ''; DROP TABLE users'']]) [str ''N''] True
   \<and> (2::nat) \<le> 2
   \<and> validateFile lowerASCII (Inr ([exDirtyHeader] # [[str ''1'']])) exDirtyConfig =
        Success (str ''File validation passed successfully'')
   \<and> validateFile lowerASCII (Inr [[exDirtyHeader]]) exDirtyConfig =
        Success (str ''File validation passed successfully'')"
proof -
  let ?f = "\<lparr>column = str ''N'', line = 2,
     reason = str ''Contains potentially dangerous SQL pattern (Statement terminator): '' @
              [34] @ str ''; DROP TABLE users'' @ [34]\<rparr>"
  note th = header_row_not_examined [of "[str ''x;'']" "[[str ''; DROP TABLE users'']]"
      "[str ''N'']" True "[str ''N'']" lowerASCII "headers exDirtyConfig" "[UTF8]"
      "[[str ''N''], [str ''; DROP TABLE users'']]"]
  have 1: "validateDataRows ([str ''x;''] # [[str ''; DROP TABLE users'']]) [str ''N''] True =
     validateDataRows ([str ''N''] # [[str ''; DROP TABLE users'']]) [str ''N''] True"
    using th by blast
  have ne: "str ''; DROP TABLE users'' \<noteq> []" "str ''N'' \<noteq> []"
    by (simp_all add: str_def)
  have v: "validateDataRows [[str ''N''], [str ''; DROP TABLE users'']] [str ''N''] True = [?f]"
    by (simp add: validateDataRows_def emptyRow_def sqlCell_drop_table columnLabel_def
          nth_opt_def ne)
  have 2: "2 \<le> line ?f"
    using th v by simp
  note th2 = header_row_not_examined [of "[exDirtyHeader]" "[[str ''1'']]" "[]" True "[]"
      lowerASCII "headers exDirtyConfig" "[]" "[]" exDirtyConfig]
  have 3: "validateFile lowerASCII (Inr ([exDirtyHeader] # [[str ''1'']])) exDirtyConfig =
        Success (str ''File validation passed successfully'')"
    using th2 ex_dirty_headers ex_dirty_rows by simp
  have 4: "validateFile lowerASCII (Inr [[exDirtyHeader]]) exDirtyConfig =
        Success (str ''File validation passed successfully'')"
    using th2 ex_dirty_headers by simp
  show ?thesis using 1 2 3 4 by simp
qed

section \<open>The matcher decides the language\<close>

lemma conc_iff: "w \<in> conc A B \<longleftrightarrow> (\<exists>u v. w = u @ v \<and> u \<in> A \<and> v \<in> B)"
  by (auto simp: conc_def)

lemma conc_Nil_iff: "[] \<in> conc A B \<longleftrightarrow> [] \<in> A \<and> [] \<in> B"
  by (auto simp: conc_def)

lemma conc_Cons_iff:
  "c # w \<in> conc A B \<longleftrightarrow>
     ([] \<in> A \<and> c # w \<in> B) \<or> (\<exists>u v. w = u @ v \<and> c # u \<in> A \<and> v \<in> B)"
  by (auto simp: conc_def Cons_eq_append_conv)

lemma star_Cons_split:
  assumes "x \<in> star A" and "x = c # w"
  shows "\<exists>u v. w = u @ v \<and> c # u \<in> A \<and> v \<in> star A"
  using assms
proof (induction arbitrary: w rule: star.induct)
  case star_nil
  then show ?case by simp
next
  case (star_step u v)
  show ?case
  proof (cases u)
    case Nil
    with star_step show ?thesis by simp
  next
    case (Cons a u')
    with star_step.prems have "a = c" "w = u' @ v" by simp_all
    with Cons star_step.hyps show ?thesis by blast
  qed
qed

lemma star_Cons_iff:
  "c # w \<in> star A \<longleftrightarrow> (\<exists>u v. w = u @ v \<and> c # u \<in> A \<and> v \<in> star A)"
proof
  assume "c # w \<in> star A"
  then show "\<exists>u v. w = u @ v \<and> c # u \<in> A \<and> v \<in> star A"
    by (rule star_Cons_split) simp
next
  assume "\<exists>u v. w = u @ v \<and> c # u \<in> A \<and> v \<in> star A"
  then obtain u v where "w = u @ v" "c # u \<in> A" "v \<in> star A" by blast
  then show "c # w \<in> star A"
    using star_step [of "c # u" A v] by simp
qed

lemma nullable_lang: "nullable r \<longleftrightarrow> [] \<in> lang r"
  by (induction r) (auto simp: conc_Nil_iff intro: star_nil)

lemma deriv_lang: "w \<in> lang (deriv c r) \<longleftrightarrow> c # w \<in> lang r"
proof (induction r arbitrary: w)
  case (Seq r s)
  have "w \<in> lang (deriv c (Seq r s)) \<longleftrightarrow>
          w \<in> conc (lang (deriv c r)) (lang s) \<or> (nullable r \<and> w \<in> lang (deriv c s))"
    by simp
  also have "\<dots> \<longleftrightarrow>
          (\<exists>u v. w = u @ v \<and> c # u \<in> lang r \<and> v \<in> lang s) \<or> ([] \<in> lang r \<and> c # w \<in> lang s)"
    by (simp add: conc_iff Seq.IH nullable_lang)
  also have "\<dots> \<longleftrightarrow> c # w \<in> conc (lang r) (lang s)"
    by (auto simp: conc_Cons_iff)
  finally show ?case by simp
next
  case (Star r)
  have "w \<in> lang (deriv c (Star r)) \<longleftrightarrow> w \<in> conc (lang (deriv c r)) (star (lang r))"
    by simp
  also have "\<dots> \<longleftrightarrow> (\<exists>u v. w = u @ v \<and> c # u \<in> lang r \<and> v \<in> star (lang r))"
    by (simp add: conc_iff Star.IH)
  also have "\<dots> \<longleftrightarrow> c # w \<in> star (lang r)"
    by (simp add: star_Cons_iff)
  finally show ?case by simp
qed auto

lemma dead_lang: "dead r \<Longrightarrow> lang r = {}"
  by (induction r) (auto simp: conc_def)

lemma matches_lang: "matches r s \<longleftrightarrow> s \<in> lang r"
proof (induction s arbitrary: r)
  case Nil
  then show ?case by (simp add: nullable_lang)
next
  case (Cons c cs)
  show ?case
  proof (cases "dead r")
    case True
    then show ?thesis by (simp add: dead_lang)
  next
    case False
    then show ?thesis by (simp add: Cons.IH deriv_lang)
  qed
qed

lemma match_here_lang: "match_here r s \<longleftrightarrow> (\<exists>u v. s = u @ v \<and> u \<in> lang r)"
proof (induction s arbitrary: r)
  case Nil
  then show ?case by (simp add: nullable_lang)
next
  case (Cons c cs)
  show ?case
  proof (cases "nullable r")
    case True
    then have "c # cs = [] @ (c # cs) \<and> [] \<in> lang r" by (simp add: nullable_lang)
    then have "\<exists>u v. c # cs = u @ v \<and> u \<in> lang r" by blast
    with True show ?thesis by simp
  next
    case False
    show ?thesis
    proof (cases "dead r")
      case True
      with False show ?thesis by (simp add: dead_lang)
    next
      case live: False
      have "(\<exists>u v. c # cs = u @ v \<and> u \<in> lang r) \<longleftrightarrow>
            (\<exists>u v. cs = u @ v \<and> c # u \<in> lang r)"
        using False by (auto simp: nullable_lang Cons_eq_append_conv)
      with False live show ?thesis by (simp add: Cons.IH deriv_lang)
    qed
  qed
qed

lemma test_lang: "test r s \<longleftrightarrow> (\<exists>p u v. s = p @ u @ v \<and> u \<in> lang r)"
proof (induction s)
  case Nil
  then show ?case by (simp add: nullable_lang)
next
  case (Cons c cs)
  have "(\<exists>p u v. c # cs = p @ u @ v \<and> u \<in> lang r) \<longleftrightarrow>
        (\<exists>u v. c # cs = u @ v \<and> u \<in> lang r) \<or> (\<exists>p u v. cs = p @ u @ v \<and> u \<in> lang r)"
    (is "?L \<longleftrightarrow> ?A \<or> ?B")
  proof
    assume ?L
    then obtain p u v where e: "c # cs = p @ u @ v" and u: "u \<in> lang r" by blast
    show "?A \<or> ?B"
    proof (cases p)
      case Nil
      with e u show ?thesis by auto
    next
      case (Cons a p')
      with e have "cs = p' @ u @ v" by simp
      with u show ?thesis by blast
    qed
  next
    assume "?A \<or> ?B"
    then show ?L
    proof
      assume ?A
      then obtain u v where "c # cs = [] @ u @ v" "u \<in> lang r" by auto
      then show ?L by blast
    next
      assume ?B
      then obtain p u v where "c # cs = (c # p) @ u @ v" "u \<in> lang r" by auto
      then show ?L by blast
    qed
  qed
  moreover have "test r (c # cs) \<longleftrightarrow> match_here r (c # cs) \<or> test r cs"
    by (cases "match_here r (c # cs)") (simp_all only: test.simps if_True if_False simp_thms)
  ultimately show ?case
    by (simp only: Cons.IH match_here_lang [of r "c # cs"])
qed

section \<open>The number pattern\<close>

lemma lang_ch: "lang (ch c) = {[c]}"
  by (auto simp: ch_def)

lemma lang_digit: "lang digit = {[c] | c. is_digit c}"
  by (simp add: digit_def)

lemma star_digits: "star (lang digit) = {s. digit_string s}"
proof (intro set_eqI iffI)
  fix s assume "s \<in> star (lang digit)"
  then have "digit_string s"
    by (induction rule: star.induct) (auto simp: digit_string_def lang_digit)
  then show "s \<in> {s. digit_string s}" by simp
next
  fix s assume "s \<in> {s. digit_string s}"
  then have "list_all is_digit s" by (simp add: digit_string_def)
  then show "s \<in> star (lang digit)"
  proof (induction s)
    case Nil
    show ?case by (rule star_nil)
  next
    case (Cons c s)
    then have "[c] \<in> lang digit" "s \<in> star (lang digit)" by (simp_all add: lang_digit)
    then have "[c] @ s \<in> star (lang digit)" by (rule star_step)
    then show ?case by simp
  qed
qed

lemma plus_digits: "conc (lang digit) {s. digit_string s} = {s. s \<noteq> [] \<and> digit_string s}"
proof (intro set_eqI iffI)
  fix s assume "s \<in> conc (lang digit) {s. digit_string s}"
  then show "s \<in> {s. s \<noteq> [] \<and> digit_string s}"
    by (auto simp: conc_def lang_digit digit_string_def)
next
  fix s assume "s \<in> {s. s \<noteq> [] \<and> digit_string s}"
  then obtain c cs where s: "s = c # cs" and d: "is_digit c" "digit_string cs"
    by (cases s) (auto simp: digit_string_def)
  have "[c] @ cs \<in> conc (lang digit) {s. digit_string s}"
    unfolding conc_iff using d by (intro exI [of _ "[c]"] exI [of _ cs]) (simp add: lang_digit)
  with s show "s \<in> conc (lang digit) {s. digit_string s}" by simp
qed

lemma lang_NUMBER_PATTERN:
  "lang NUMBER_PATTERN =
     conc ({[45]} \<union> {[]})
          (conc {s. s \<noteq> [] \<and> digit_string s} (conc {[46]} {s. digit_string s} \<union> {[]})
           \<union> conc {s. digit_string s} (conc {[46]} {s. s \<noteq> [] \<and> digit_string s}))"
  by (simp add: NUMBER_PATTERN_def Opt_def Plus_def star_digits plus_digits lang_ch)

lemma number_body:
  "b \<in> conc {s. s \<noteq> [] \<and> digit_string s} (conc {[46]} {s. digit_string s} \<union> {[]})
         \<union> conc {s. digit_string s} (conc {[46]} {s. s \<noteq> [] \<and> digit_string s})
   \<longleftrightarrow>
   (\<exists>ds frac. b = ds @ frac \<and> ds \<noteq> [] \<and> digit_string ds \<and>
                (frac = [] \<or> (\<exists>fs. frac = 46 # fs \<and> digit_string fs)))
   \<or> (\<exists>fs. b = 46 # fs \<and> fs \<noteq> [] \<and> digit_string fs)"
  (is "b \<in> ?A \<union> ?B \<longleftrightarrow> ?F1 \<or> ?F2")
proof -
  have A: "b \<in> ?A \<longleftrightarrow> ?F1"
    by (auto simp: conc_iff)
  have B: "b \<in> ?B \<longleftrightarrow> (\<exists>ds fs. b = ds @ 46 # fs \<and> digit_string ds \<and> fs \<noteq> [] \<and> digit_string fs)"
    by (auto simp: conc_iff)
  have "?F1 \<or> ?F2" if "b = ds @ 46 # fs" "digit_string ds" "fs \<noteq> []" "digit_string fs" for ds fs
  proof (cases "ds = []")
    case True
    with that show ?thesis by simp
  next
    case False
    with that show ?thesis by blast
  qed
  moreover have "\<exists>ds fs'. b = ds @ 46 # fs' \<and> digit_string ds \<and> fs' \<noteq> [] \<and> digit_string fs'"
    if "b = 46 # fs" "fs \<noteq> []" "digit_string fs" for fs
    using that by (intro exI [of _ "[]"] exI [of _ fs]) (simp add: digit_string_def)
  ultimately show ?thesis unfolding Un_iff A B by blast
qed

lemma NUMBER_PATTERN_grammar: "matches NUMBER_PATTERN v \<longleftrightarrow> number_grammar v"
proof -
  have "matches NUMBER_PATTERN v \<longleftrightarrow>
          (\<exists>sign body. v = sign @ body \<and> sign \<in> {[45]} \<union> {[]} \<and>
             body \<in> conc {s. s \<noteq> [] \<and> digit_string s} (conc {[46]} {s. digit_string s} \<union> {[]})
                    \<union> conc {s. digit_string s} (conc {[46]} {s. s \<noteq> [] \<and> digit_string s}))"
    by (simp only: matches_lang lang_NUMBER_PATTERN conc_iff [of v])
  also have "\<dots> \<longleftrightarrow> number_grammar v"
    unfolding number_body number_grammar_def by blast
  finally show ?thesis .
qed

section \<open>Number cells\<close>

lemma dropWhile_hd: "xs \<noteq> [] \<Longrightarrow> \<not> P (hd xs) \<Longrightarrow> dropWhile P xs = xs"
  by (cases xs) simp_all

lemma trim_id:
  assumes "s \<noteq> []" and "\<not> is_space (hd s)" and "\<not> is_space (last s)"
  shows "trim s = s"
proof -
  from assms(1,2) have a: "dropWhile is_space s = s"
    by (cases s) simp_all
  from assms(1) have "rev s \<noteq> []" "hd (rev s) = last s"
    by (simp_all add: hd_rev)
  with assms(3) have "rev s \<noteq> []" "\<not> is_space (hd (rev s))"
    by simp_all
  then have b: "dropWhile is_space (rev s) = rev s"
    by (rule dropWhile_hd)
  show ?thesis unfolding trim_def a b by simp
qed

lemma strip_quotes:
  assumes "q = 34 \<or> q = 39"
  shows "stripSurroundingQuotes (q # inner @ [q]) = inner"
proof -
  from assms have "\<not> is_space q" by (auto simp: is_space_def)
  then have "trim (q # inner @ [q]) = q # inner @ [q]"
    by (intro trim_id) simp_all
  with assms show ?thesis
    by (auto simp: stripSurroundingQuotes_def Let_def butlast_append)
qed

lemma number_cell:
  assumes "ctype cons = Some TNumber" and "trim raw \<noteq> []"
  shows "validateCellForSchema lc raw cons name ln =
           (if matches NUMBER_PATTERN (stripSurroundingQuotes (trim raw)) then None
            else Some \<lparr>column = name, line = ln,
                       reason = str ''Column '' @ [34] @ name @ [34] @
                                str '' expects a number; got: '' @ [34] @
                                preview raw @ [34]\<rparr>)"
  using assms by (simp add: validateCellForSchema_def Let_def orDefault_def)

lemma number_examples:
  "trim (str ''42'') = str ''42''" "matches NUMBER_PATTERN (stripSurroundingQuotes (str ''42''))"
  "trim (str ''-3.14'') = str ''-3.14''"
  "matches NUMBER_PATTERN (stripSurroundingQuotes (str ''-3.14''))"
  "trim (str ''.5'') = str ''.5''" "matches NUMBER_PATTERN (stripSurroundingQuotes (str ''.5''))"
  "trim (str ''-0.'') = str ''-0.''" "matches NUMBER_PATTERN (stripSurroundingQuotes (str ''-0.''))"
  "trim (34 # str ''42'' @ [34]) = 34 # str ''42'' @ [34]"
  "matches NUMBER_PATTERN (stripSurroundingQuotes (34 # str ''42'' @ [34]))"
  "trim (str ''not-a-number'') = str ''not-a-number''"
  "\<not> matches NUMBER_PATTERN (stripSurroundingQuotes (str ''not-a-number''))"
  "trim (str ''1.2.3'') = str ''1.2.3''"
  "\<not> matches NUMBER_PATTERN (stripSurroundingQuotes (str ''1.2.3''))"
  by (simp_all add: stripSurroundingQuotes_def NUMBER_PATTERN_def string_eval rx_eval)

lemma number_example_cells:
  assumes "ctype cons = Some TNumber"
  shows "validateCellForSchema lc (str ''42'') cons name ln = None"
    "validateCellForSchema lc (str ''-3.14'') cons name ln = None"
    "validateCellForSchema lc (str ''.5'') cons name ln = None"
    "validateCellForSchema lc (str ''-0.'') cons name ln = None"
    "validateCellForSchema lc (34 # str ''42'' @ [34]) cons name ln = None"
    "validateCellForSchema lc (str ''not-a-number'') cons name ln =
       Some \<lparr>column = name, line = ln,
             reason = str ''Column '' @ [34] @ name @ [34] @
                      str '' expects a number; got: '' @ [34] @ str ''not-a-number'' @ [34]\<rparr>"
    "validateCellForSchema lc (str ''1.2.3'') cons name ln =
       Some \<lparr>column = name, line = ln,
             reason = str ''Column '' @ [34] @ name @ [34] @
                      str '' expects a number; got: '' @ [34] @ str ''1.2.3'' @ [34]\<rparr>"
proof -
  have ne: "str ''42'' \<noteq> []" "str ''-3.14'' \<noteq> []" "str ''.5'' \<noteq> []" "str ''-0.'' \<noteq> []"
    "str ''not-a-number'' \<noteq> []" "str ''1.2.3'' \<noteq> []"
    by (simp_all add: str_def)
  have p: "preview (str ''not-a-number'') = str ''not-a-number''"
    "preview (str ''1.2.3'') = str ''1.2.3''"
    by (simp_all add: preview_def str_def)
  show "validateCellForSchema lc (str ''42'') cons name ln = None"
    "validateCellForSchema lc (str ''-3.14'') cons name ln = None"
    "validateCellForSchema lc (str ''.5'') cons name ln = None"
    "validateCellForSchema lc (str ''-0.'') cons name ln = None"
    "validateCellForSchema lc (34 # str ''42'' @ [34]) cons name ln = None"
    "validateCellForSchema lc (str ''not-a-number'') cons name ln =
       Some \<lparr>column = name, line = ln,
             reason = str ''Column '' @ [34] @ name @ [34] @
                      str '' expects a number; got: '' @ [34] @ str ''not-a-number'' @ [34]\<rparr>"
    "validateCellForSchema lc (str ''1.2.3'') cons name ln =
       Some \<lparr>column = name, line = ln,
             reason = str ''Column '' @ [34] @ name @ [34] @
                      str '' expects a number; got: '' @ [34] @ str ''1.2.3'' @ [34]\<rparr>"
    using assms ne by (simp_all add: number_cell number_examples p)
qed

text \<open>
  Claim C7. In a column of type number, a cell that is not empty after trimming passes
  exactly when its trimmed text, one layer of surrounding matching single or double
  quotes stripped, belongs to the numeric grammar; otherwise the validator returns a
  failure whose reason holds a preview of the raw cell, cut to 50 characters and followed
  by an ellipsis when the cell is longer. The values 42, -3.14, .5, -0. and the quoted
  "42" pass; not-a-number and 1.2.3 fail.
\<close>

theorem number_cells_follow_grammar:
  assumes "ctype cons = Some TNumber" and "trim raw \<noteq> []"
  shows "(validateCellForSchema lc raw cons name ln = None \<longleftrightarrow>
            number_grammar (stripSurroundingQuotes (trim raw)))
    \<and> (\<not> number_grammar (stripSurroundingQuotes (trim raw)) \<longrightarrow>
          validateCellForSchema lc raw cons name ln =
            Some \<lparr>column = name, line = ln,
                  reason = str ''Column '' @ [34] @ name @ [34] @
                           str '' expects a number; got: '' @ [34] @ preview raw @ [34]\<rparr>)
    \<and> (length raw \<le> 50 \<longrightarrow> preview raw = raw)
    \<and> (length raw > 50 \<longrightarrow> preview raw = take 50 raw @ str ''...'')
    \<and> (q = 34 \<or> q = 39 \<longrightarrow> stripSurroundingQuotes (q # inner @ [q]) = inner)
    \<and> validateCellForSchema lc (str ''42'') cons name ln = None
    \<and> validateCellForSchema lc (str ''-3.14'') cons name ln = None
    \<and> validateCellForSchema lc (str ''.5'') cons name ln = None
    \<and> validateCellForSchema lc (str ''-0.'') cons name ln = None
    \<and> validateCellForSchema lc (34 # str ''42'' @ [34]) cons name ln = None
    \<and> validateCellForSchema lc (str ''not-a-number'') cons name ln =
        Some \<lparr>column = name, line = ln,
              reason = str ''Column '' @ [34] @ name @ [34] @
                       str '' expects a number; got: '' @ [34] @ str ''not-a-number'' @ [34]\<rparr>
    \<and> validateCellForSchema lc (str ''1.2.3'') cons name ln =
        Some \<lparr>column = name, line = ln,
              reason = str ''Column '' @ [34] @ name @ [34] @
                       str '' expects a number; got: '' @ [34] @ str ''1.2.3'' @ [34]\<rparr>"
proof -
  have cell: "validateCellForSchema lc raw cons name ln =
           (if number_grammar (stripSurroundingQuotes (trim raw)) then None
            else Some \<lparr>column = name, line = ln,
                       reason = str ''Column '' @ [34] @ name @ [34] @
                                str '' expects a number; got: '' @ [34] @
                                preview raw @ [34]\<rparr>)"
    using number_cell [OF assms] by (simp add: NUMBER_PATTERN_grammar)
  have 1: "validateCellForSchema lc raw cons name ln = None \<longleftrightarrow>
            number_grammar (stripSurroundingQuotes (trim raw))"
    by (simp add: cell)
  have 2: "\<not> number_grammar (stripSurroundingQuotes (trim raw)) \<longrightarrow>
          validateCellForSchema lc raw cons name ln =
            Some \<lparr>column = name, line = ln,
                  reason = str ''Column '' @ [34] @ name @ [34] @
                           str '' expects a number; got: '' @ [34] @ preview raw @ [34]\<rparr>"
    by (simp add: cell)
  have 3: "(length raw \<le> 50 \<longrightarrow> preview raw = raw)
    \<and> (length raw > 50 \<longrightarrow> preview raw = take 50 raw @ str ''...'')"
    by (simp add: preview_def)
  have 4: "q = 34 \<or> q = 39 \<longrightarrow> stripSurroundingQuotes (q # inner @ [q]) = inner"
    using strip_quotes by blast
  show ?thesis
    using 1 2 3 4 number_example_cells [OF assms(1), of lc name ln] by blast
qed

theorem number_cells_follow_grammar_witness:
  "validateCellForSchema lowerASCII (32 # 39 # str ''-3.14'' @ [39, 32])
     \<lparr>ctype = Some TNumber, allowNull = None\<rparr> (str ''Age'') 2 = None
   \<and> number_grammar (str ''-3.14'')
   \<and> stripSurroundingQuotes (39 # str ''-3.14'' @ [39]) = str ''-3.14''
   \<and> preview (32 # 39 # str ''-3.14'' @ [39, 32]) = 32 # 39 # str ''-3.14'' @ [39, 32]
   \<and> \<not> number_grammar exLongCell
   \<and> preview exLongCell = take 50 exLongCell @ str ''...''
   \<and> validateCellForSchema lowerASCII exLongCell
       \<lparr>ctype = Some TNumber, allowNull = None\<rparr> (str ''Age'') 2 =
       Some \<lparr>column = str ''Age'', line = 2,
             reason = str ''Column '' @ [34] @ str ''Age'' @ [34] @
                      str '' expects a number; got: '' @ [34] @
                      take 50 exLongCell @ str ''...'' @ [34]\<rparr>"
proof -
  let ?c = "\<lparr>ctype = Some TNumber, allowNull = None\<rparr>"
  have c: "ctype ?c = Some TNumber" by simp
  have t1: "trim (32 # 39 # str ''-3.14'' @ [39, 32]) = 39 # str ''-3.14'' @ [39]"
    by (simp add: string_eval)
  have m1: "matches NUMBER_PATTERN (str ''-3.14'')"
    by (simp add: NUMBER_PATTERN_def str_def rx_eval)
  have n1: "trim (32 # 39 # str ''-3.14'' @ [39, 32]) \<noteq> []"
    by (simp add: t1)
  note th1 = number_cells_follow_grammar [OF c n1, of lowerASCII "str ''Age''" 2 39 "str ''-3.14''"]
  have s1: "stripSurroundingQuotes (39 # str ''-3.14'' @ [39]) = str ''-3.14''"
    using th1 by simp
  have v1: "validateCellForSchema lowerASCII (32 # 39 # str ''-3.14'' @ [39, 32]) ?c
              (str ''Age'') 2 = None"
    using number_cell [OF c n1] by (simp add: t1 s1 m1)
  have g1: "number_grammar (str ''-3.14'')"
    using th1 v1 by (simp add: t1 s1)
  have p1: "preview (32 # 39 # str ''-3.14'' @ [39, 32]) = 32 # 39 # str ''-3.14'' @ [39, 32]"
    using th1 by (simp add: str_def)
  have l2: "length exLongCell > 50"
    by (simp add: exLongCell_def str_def)
  have t2: "trim exLongCell = exLongCell"
    by (simp add: exLongCell_def string_eval)
  have s2: "stripSurroundingQuotes exLongCell = exLongCell"
    by (simp add: stripSurroundingQuotes_def t2 Let_def) (simp add: exLongCell_def str_def)
  have m2: "\<not> matches NUMBER_PATTERN exLongCell"
    by (simp add: NUMBER_PATTERN_def exLongCell_def str_def rx_eval)
  have n2: "trim exLongCell \<noteq> []"
    unfolding t2 using l2 by auto
  have v2: "validateCellForSchema lowerASCII exLongCell ?c (str ''Age'') 2 \<noteq> None"
    using number_cell [OF c n2] by (simp add: t2 s2 m2)
  note th2 = number_cells_follow_grammar [OF c n2, of lowerASCII "str ''Age''" 2 39 "[]"]
  have g2: "\<not> number_grammar exLongCell"
    using th2 v2 by (simp add: t2 s2)
  have p2: "preview exLongCell = take 50 exLongCell @ str ''...''"
    using th2 l2 by simp
  have f2: "validateCellForSchema lowerASCII exLongCell ?c (str ''Age'') 2 =
       Some \<lparr>column = str ''Age'', line = 2,
             reason = str ''Column '' @ [34] @ str ''Age'' @ [34] @
                      str '' expects a number; got: '' @ [34] @
                      take 50 exLongCell @ str ''...'' @ [34]\<rparr>"
    using th2 g2 by (simp add: t2 s2 p2)
  show ?thesis using v1 g1 s1 p1 g2 p2 f2 by simp
qed

end
